theory Spec2Isabelle
  imports Complex_Main
begin

unbundle bit_operations_syntax

section \<open>The BKZ reduction driver of fplll (src/bkz.cpp)\<close>

text \<open>
  The driver of \<^verbatim>\<open>src/bkz.cpp\<close> is a piece of control code around three collaborators that
  are defined in other files of fplll: the Gram-Schmidt object \<^verbatim>\<open>m\<close> (MatGSO), the LLL reducer
  \<^verbatim>\<open>lllObj\<close> and \<^verbatim>\<open>Enumeration::enumerate\<close>.  The embedding keeps the driver as it is written
  and treats the collaborators as an environment:

  \<^item> every call the driver makes on a collaborator is appended to a log (\<open>calls\<close>), in program
    order, with its arguments;
  \<^item> every value a collaborator hands back (the success flag of LLL, the GSO coefficient, the
    enumerated solution, the clock) is read from a field of the environment \<open>E\<close>, a function of
    the log up to and including that call.  A deterministic collaborator started in a fixed
    state is such a function, so a statement proved for every \<open>E\<close> holds for every
    behaviour of the collaborators;
  \<^item> the floating-point type \<^verbatim>\<open>FT\<close> and \<^verbatim>\<open>double\<close> share one carrier \<open>'f\<close>, of which only the
    operations the driver uses are assumed to exist (\<open>0\<close>, \<open>1\<close>, \<open>-\<close>, \<open>*\<close>, \<open><\<close>, \<open>\<le>\<close>), with no
    law about them; this covers IEEE arithmetic with NaN as well as exact arithmetic.  The
    conversion \<^verbatim>\<open>get_d\<close> and the floating-point formulas that no decision of the driver looks
    into (the least-squares slope, the comparison of the elapsed time) are fields of \<open>E\<close>;
  \<^item> C \<^verbatim>\<open>int\<close> is \<open>int\<close>.  The increment of \<open>noDec\<close> in \<^verbatim>\<open>testAbort\<close> is that of a 32-bit
    machine integer, which wraps around at \<open>INT_MAX\<close>; the row indices are bounded by \<open>maxRow\<close>,
    and the counters of the tours grow by one for each unit of fuel;
  \<^item> the unbounded loops \<^verbatim>\<open>for (i = 0;; i++)\<close> take fuel, one unit for each iteration, and
    running out of it is the result \<open>Inl OutOfFuel\<close>;
  \<^item> the text written to \<^verbatim>\<open>cerr\<close> and to the dump file is not modelled, the collaborator calls
    made to produce it are.
\<close>

subsection \<open>Constants of defs.h\<close>

text \<open>\<^verbatim>\<open>enum RedStatus\<close>, defs.h lines 143-155.  The status fields are \<^verbatim>\<open>int\<close> in the code.\<close>

definition RED_SUCCESS :: int where "RED_SUCCESS = 0"
definition RED_GSO_FAILURE :: int where "RED_GSO_FAILURE = 2"
definition RED_BABAI_FAILURE :: int where "RED_BABAI_FAILURE = 3"
definition RED_LLL_FAILURE :: int where "RED_LLL_FAILURE = 4"
definition RED_ENUM_FAILURE :: int where "RED_ENUM_FAILURE = 5"
definition RED_BKZ_FAILURE :: int where "RED_BKZ_FAILURE = 6"
definition RED_BKZ_TIME_LIMIT :: int where "RED_BKZ_TIME_LIMIT = 7"
definition RED_BKZ_LOOPS_LIMIT :: int where "RED_BKZ_LOOPS_LIMIT = 8"
definition RED_STATUS_MAX :: int where "RED_STATUS_MAX = 9"

text \<open>\<^verbatim>\<open>enum BKZFlags\<close>, defs.h lines 239-252: the flags that bkz.cpp tests.\<close>

definition BKZ_VERBOSE :: int where "BKZ_VERBOSE = 1"
definition BKZ_NO_LLL :: int where "BKZ_NO_LLL = 2"
definition BKZ_MAX_LOOPS :: int where "BKZ_MAX_LOOPS = 4"
definition BKZ_MAX_TIME :: int where "BKZ_MAX_TIME = 8"
definition BKZ_BOUNDED_LLL :: int where "BKZ_BOUNDED_LLL = 16"
definition BKZ_AUTO_ABORT :: int where "BKZ_AUTO_ABORT = 32"
definition BKZ_DUMP_GSO :: int where "BKZ_DUMP_GSO = 64"

text \<open>The test \<^verbatim>\<open>(flags & BIT)\<close> used as a condition.\<close>

definition flag_set :: "int \<Rightarrow> int \<Rightarrow> bool" where
  "flag_set fl b = (fl AND b \<noteq> 0)"

subsection \<open>Data\<close>

text \<open>
  Modelled from the spec: \<^verbatim>\<open>class BKZParam\<close> of bkz.h (section 3 of the spec, and the fields
  bkz.cpp reads).  \<open>preprocessing\<close> is the pointer to the nested parameters, null being \<open>None\<close>.
\<close>

datatype 'f BKZParam = BKZParam
  (blockSize: int)
  (delta: 'f)
  (flags: int)
  (maxLoops: int)
  (maxTime: 'f)
  (autoAbort_scale: 'f)
  (autoAbort_maxNoDec: int)
  (pruning: "'f list")
  (preprocessing: "'f BKZParam option")
  (dumpGSOFilename: string)

text \<open>The calls the driver makes on its collaborators.\<close>

datatype 'f call =
    C_lll int int int
  | C_sizeReduction int int
  | C_enumerate 'f int int int "'f list"
  | C_getRExp int int
  | C_updateGSORow int
  | C_discoverAllRows
  | C_createRow
  | C_removeLastRow
  | C_moveRow int int
  | C_rowOpBegin int int
  | C_rowOpEnd int int
  | C_row_addmul int int 'f
  | C_cputime
  | C_dump_open string bool

text \<open>
  The environment.  \<open>lll_result h\<close> is what the call of \<^verbatim>\<open>lllObj.lll\<close> that ends the log \<open>h\<close>
  returns, with the values of \<^verbatim>\<open>lllObj.status\<close> and \<^verbatim>\<open>lllObj.nSwaps\<close> after it; likewise for the
  others.  \<open>b_is_zero h i\<close> is \<^verbatim>\<open>m.b[i].is_zero()\<close> after the calls \<open>h\<close>.  \<open>debug\<close> says whether the
  code was compiled with \<^verbatim>\<open>DEBUG\<close> (defs.h lines 82-107).
\<close>

record 'f env =
  lll_result :: "'f call list \<Rightarrow> bool \<times> int \<times> int"
  sizeReduction_result :: "'f call list \<Rightarrow> bool \<times> int \<times> int"
  enumerate_result :: "'f call list \<Rightarrow> 'f \<times> 'f list"
  getRExp_result :: "'f call list \<Rightarrow> 'f \<times> int"
  cputime_result :: "'f call list \<Rightarrow> int"
  b_is_zero :: "'f call list \<Rightarrow> int \<Rightarrow> bool"
  get_d :: "'f \<Rightarrow> 'f"
  lsq_slope :: "int \<Rightarrow> int \<Rightarrow> ('f \<times> int) list \<Rightarrow> 'f"
  elapsed_ge :: "int \<Rightarrow> 'f \<Rightarrow> bool"
  double_max :: 'f
  debug :: bool

text \<open>
  The state the driver works on: the members of \<^verbatim>\<open>BKZReduction\<close> that change
  (\<open>status\<close>, \<open>numRows\<close>, \<open>cputimeStart\<close>, \<open>maxDist\<close>, \<open>deltaMaxDist\<close>), what it reads of its
  collaborators (\<open>m_d\<close> is \<^verbatim>\<open>m.d\<close>, \<open>lll_status\<close> and \<open>lll_nSwaps\<close> are \<^verbatim>\<open>lllObj.status\<close> and
  \<^verbatim>\<open>lllObj.nSwaps\<close>, \<open>solCoord\<close> is \<^verbatim>\<open>evaluator.solCoord\<close>) and the log.
\<close>

record 'f bkz_state =
  status :: int
  numRows :: int
  cputimeStart :: int
  maxDist :: 'f
  deltaMaxDist :: 'f
  m_d :: int
  lll_status :: int
  lll_nSwaps :: int
  solCoord :: "'f list"
  calls :: "'f call list"

datatype failure = OutOfFuel | AssertionFailed | IndexOutOfRange

text \<open>A part of a function body either returns from the function or falls through.\<close>

datatype ('r, 'c) flow = Return 'r | Continue 'c

subsection \<open>The collaborators, as the driver sees them\<close>

text \<open>
  Modelled from the spec: the members of MatGSO (section 6.1).  \<^verbatim>\<open>createRow\<close> and
  \<^verbatim>\<open>removeLastRow\<close> are the only operations that change the number of rows \<^verbatim>\<open>m.d\<close>.
\<close>

definition m_updateGSORow :: "int \<Rightarrow> 'f bkz_state \<Rightarrow> 'f bkz_state" where
  "m_updateGSORow i s = s\<lparr>calls := calls s @ [C_updateGSORow i]\<rparr>"

definition m_discoverAllRows :: "'f bkz_state \<Rightarrow> 'f bkz_state" where
  "m_discoverAllRows s = s\<lparr>calls := calls s @ [C_discoverAllRows]\<rparr>"

definition m_getRExp :: "'f env \<Rightarrow> int \<Rightarrow> int \<Rightarrow> 'f bkz_state \<Rightarrow> ('f \<times> int) \<times> 'f bkz_state" where
  "m_getRExp E i j s =
     (let h = calls s @ [C_getRExp i j] in (getRExp_result E h, s\<lparr>calls := h\<rparr>))"

definition m_createRow :: "'f bkz_state \<Rightarrow> 'f bkz_state" where
  "m_createRow s = s\<lparr>m_d := m_d s + 1, calls := calls s @ [C_createRow]\<rparr>"

definition m_removeLastRow :: "'f bkz_state \<Rightarrow> 'f bkz_state" where
  "m_removeLastRow s = s\<lparr>m_d := m_d s - 1, calls := calls s @ [C_removeLastRow]\<rparr>"

definition m_moveRow :: "int \<Rightarrow> int \<Rightarrow> 'f bkz_state \<Rightarrow> 'f bkz_state" where
  "m_moveRow src dst s = s\<lparr>calls := calls s @ [C_moveRow src dst]\<rparr>"

definition m_rowOpBegin :: "int \<Rightarrow> int \<Rightarrow> 'f bkz_state \<Rightarrow> 'f bkz_state" where
  "m_rowOpBegin lo hi s = s\<lparr>calls := calls s @ [C_rowOpBegin lo hi]\<rparr>"

definition m_rowOpEnd :: "int \<Rightarrow> int \<Rightarrow> 'f bkz_state \<Rightarrow> 'f bkz_state" where
  "m_rowOpEnd lo hi s = s\<lparr>calls := calls s @ [C_rowOpEnd lo hi]\<rparr>"

definition m_row_addmul :: "int \<Rightarrow> int \<Rightarrow> 'f \<Rightarrow> 'f bkz_state \<Rightarrow> 'f bkz_state" where
  "m_row_addmul dst src x s = s\<lparr>calls := calls s @ [C_row_addmul dst src x]\<rparr>"

text \<open>Modelled from the spec: the members of LLLReduction (section 6.2).\<close>

definition lllObj_lll :: "'f env \<Rightarrow> int \<Rightarrow> int \<Rightarrow> int \<Rightarrow> 'f bkz_state \<Rightarrow> bool \<times> 'f bkz_state" where
  "lllObj_lll E lo startRed hi s =
     (let h = calls s @ [C_lll lo startRed hi];
          (ok, st, sw) = lll_result E h
      in (ok, s\<lparr>lll_status := st, lll_nSwaps := sw, calls := h\<rparr>))"

definition lllObj_sizeReduction :: "'f env \<Rightarrow> int \<Rightarrow> int \<Rightarrow> 'f bkz_state \<Rightarrow> bool \<times> 'f bkz_state" where
  "lllObj_sizeReduction E lo hi s =
     (let h = calls s @ [C_sizeReduction lo hi];
          (ok, st, sw) = sizeReduction_result E h
      in (ok, s\<lparr>lll_status := st, lll_nSwaps := sw, calls := h\<rparr>))"

text \<open>
  Modelled from the spec: \<^verbatim>\<open>Enumeration::enumerate\<close> (section 6.3).  It takes \<^verbatim>\<open>maxDist\<close> by
  reference and leaves in it the squared norm of what it found, and fills
  \<^verbatim>\<open>evaluator.solCoord\<close>.
\<close>

definition Enumeration_enumerate ::
  "'f env \<Rightarrow> int \<Rightarrow> int \<Rightarrow> int \<Rightarrow> 'f list \<Rightarrow> 'f bkz_state \<Rightarrow> 'f bkz_state" where
  "Enumeration_enumerate E maxDistExpo kappa kappaEnd pr s =
     (let h = calls s @ [C_enumerate (maxDist s) maxDistExpo kappa kappaEnd pr];
          (nd, sol) = enumerate_result E h
      in s\<lparr>maxDist := nd, solCoord := sol, calls := h\<rparr>)"

text \<open>
  Modelled from the spec: \<^verbatim>\<open>cputime()\<close> (section 5), the CPU time of the process in
  milliseconds.
\<close>

definition cputime :: "'f env \<Rightarrow> 'f bkz_state \<Rightarrow> int \<times> 'f bkz_state" where
  "cputime E s = (let h = calls s @ [C_cputime] in (cputime_result E h, s\<lparr>calls := h\<rparr>))"

text \<open>\<^verbatim>\<open>std::min(a, b)\<close> is \<^verbatim>\<open>(b < a) ? b : a\<close>.\<close>

definition std_min :: "'f::ord \<Rightarrow> 'f \<Rightarrow> 'f" where
  "std_min a b = (if b < a then b else a)"

text \<open>\<^verbatim>\<open>FPLLL_DEBUG_CHECK(x)\<close>, defs.h lines 97 and 104: \<^verbatim>\<open>assert(x)\<close> with DEBUG, nothing without.\<close>

definition FPLLL_DEBUG_CHECK :: "'f env \<Rightarrow> bool \<Rightarrow> bool" where
  "FPLLL_DEBUG_CHECK E x = (if debug E then x else True)"

subsection \<open>getCurrentSlope and BKZAutoAbort (bkz.cpp lines 25-34 and 49-72)\<close>

text \<open>
  The first loop of \<^verbatim>\<open>getCurrentSlope\<close> (lines 55-60) updates row \<open>i\<close> and reads \<open>r(i,i)\<close> for
  every \<open>i\<close> from \<open>startRow\<close> below \<open>stopRow\<close>; the values read are collected in \<open>x\<close>.
\<close>

function getCurrentSlope_rows ::
  "'f env \<Rightarrow> int \<Rightarrow> int \<Rightarrow> ('f \<times> int) list \<Rightarrow> 'f bkz_state \<Rightarrow> ('f \<times> int) list \<times> 'f bkz_state" where
  "getCurrentSlope_rows E i stopRow x s =
     (if i < stopRow then
        (let s1 = m_updateGSORow i s;
             (fe, s2) = m_getRExp E i i s1
         in getCurrentSlope_rows E (i + 1) stopRow (x @ [fe]) s2)
      else (x, s))"
  by pat_completeness auto
termination
  by (relation "measure (\<lambda>(E, i, stopRow, x, s). nat (stopRow - i))") auto

text \<open>
  Lines 61-71 are floating-point arithmetic on the values read (logarithms, means, the
  quotient of two sums): the field \<open>lsq_slope\<close> of the environment.
\<close>

definition getCurrentSlope :: "'f env \<Rightarrow> int \<Rightarrow> int \<Rightarrow> 'f bkz_state \<Rightarrow> 'f \<times> 'f bkz_state" where
  "getCurrentSlope E startRow stopRow s =
     (let (x, s1) = getCurrentSlope_rows E startRow stopRow [] s
      in (lsq_slope E startRow stopRow x, s1))"

text \<open>
  The \<^verbatim>\<open>int\<close> of the machine has 32 bits.  \<open>int32_wrap x\<close> is what it holds after an operation
  whose exact result is \<open>x\<close>: the representative of \<open>x\<close> modulo \<open>2^32\<close> between \<open>INT_MIN\<close> and
  \<open>INT_MAX\<close>.
\<close>

definition INT_MAX :: int where "INT_MAX = 2147483647"

definition INT_MIN :: int where "INT_MIN = - 2147483648"

definition int32_wrap :: "int \<Rightarrow> int" where
  "int32_wrap x = (x + 2147483648) mod 4294967296 - 2147483648"

record 'f BKZAutoAbort =
  oldSlope :: 'f
  noDec :: int
  aa_numRows :: int
  aa_startRow :: int

text \<open>
  Modelled from the spec: the constructor \<^verbatim>\<open>BKZAutoAbort(m, numRows, startRow = 0)\<close> of bkz.h
  (section 4.2: \<open>oldSlope\<close> starts at the largest value, \<open>noDec\<close> at the sentinel \<open>-1\<close>).
\<close>

definition BKZAutoAbort_new :: "'f env \<Rightarrow> int \<Rightarrow> int \<Rightarrow> 'f BKZAutoAbort" where
  "BKZAutoAbort_new E nRows startRow =
     \<lparr>oldSlope = double_max E, noDec = - 1, aa_numRows = nRows, aa_startRow = startRow\<rparr>"

text \<open>
  \<^verbatim>\<open>BKZAutoAbort<FT>::testAbort\<close>, lines 25-34, statement by statement.  \<^verbatim>\<open>noDec++\<close> is the
  increment of the machine.
\<close>

definition testAbort ::
  "('f::{uminus,times,ord}) env \<Rightarrow> 'f \<Rightarrow> int \<Rightarrow> 'f BKZAutoAbort \<Rightarrow> 'f bkz_state
     \<Rightarrow> bool \<times> 'f BKZAutoAbort \<times> 'f bkz_state" where
  "testAbort E scale maxNoDec a s =
     (let (sl, s1) = getCurrentSlope E (aa_startRow a) (aa_numRows a) s;
          newSlope = - sl;
          a1 = (if noDec a = - 1 \<or> newSlope < scale * oldSlope a
                then a\<lparr>noDec := 0\<rparr>
                else a\<lparr>noDec := int32_wrap (noDec a + 1)\<rparr>);
          a2 = a1\<lparr>oldSlope := std_min (oldSlope a1) newSlope\<rparr>
      in (maxNoDec \<le> noDec a2, a2, s1))"

subsection \<open>BKZReduction: construction and status (lines 36-43 and 259-269)\<close>

text \<open>The loop of the constructor, line 41: \<open>numRows\<close> leaves out the zero rows at the end.\<close>

function BKZReduction_scan :: "'f env \<Rightarrow> 'f call list \<Rightarrow> int \<Rightarrow> int" where
  "BKZReduction_scan E h n =
     (if n > 0 \<and> b_is_zero E h (n - 1) then BKZReduction_scan E h (n - 1) else n)"
  by pat_completeness auto
termination
  by (relation "measure (\<lambda>(E, h, n). nat n)") auto

text \<open>
  The constructor, from the state \<open>s\<close> of the collaborators it is given.  The member
  \<^verbatim>\<open>delta\<close> it sets (line 42) is \<open>delta param\<close> from then on, and is read as such below.
\<close>

definition BKZReduction_new :: "'f env \<Rightarrow> 'f bkz_state \<Rightarrow> 'f bkz_state" where
  "BKZReduction_new E s =
     s\<lparr>status := RED_SUCCESS, numRows := BKZReduction_scan E (calls s) (m_d s)\<rparr>"

text \<open>\<^verbatim>\<open>setStatus\<close>, lines 259-269; what it prints with BKZ_VERBOSE is left out.\<close>

definition setStatus :: "int \<Rightarrow> 'f bkz_state \<Rightarrow> bool \<times> 'f bkz_state" where
  "setStatus newStatus s = (let s1 = s\<lparr>status := newStatus\<rparr> in (status s1 = RED_SUCCESS, s1))"

text \<open>
  \<^verbatim>\<open>dumpGSO\<close>, lines 271-289: the file is opened, and each of the rows below \<open>numRows\<close> is
  updated and read.
\<close>

function dumpGSO_rows :: "'f env \<Rightarrow> int \<Rightarrow> 'f bkz_state \<Rightarrow> 'f bkz_state" where
  "dumpGSO_rows E i s =
     (if i < numRows s then
        (let s1 = m_updateGSORow i s;
             (fe, s2) = m_getRExp E i i s1
         in dumpGSO_rows E (i + 1) s2)
      else s)"
  by pat_completeness auto
termination
  by (relation "measure (\<lambda>(E, i, s). nat (numRows s - i))")
     (auto simp: m_updateGSORow_def m_getRExp_def Let_def)

definition dumpGSO :: "'f env \<Rightarrow> string \<Rightarrow> bool \<Rightarrow> 'f bkz_state \<Rightarrow> 'f bkz_state" where
  "dumpGSO E filename app s =
     dumpGSO_rows E 0 (s\<lparr>calls := calls s @ [C_dump_open filename app]\<rparr>)"

text \<open>
  The test \<^verbatim>\<open>(flags & BKZ_MAX_TIME) && (cputime() - start) * 0.001 >= maxTime\<close> of lines 96
  and 227: the clock is read only when the flag is set.
\<close>

definition max_time_test :: "'f env \<Rightarrow> 'f BKZParam \<Rightarrow> int \<Rightarrow> 'f bkz_state \<Rightarrow> bool \<times> 'f bkz_state" where
  "max_time_test E par start s =
     (if flag_set (flags par) BKZ_MAX_TIME
      then (let (t, s1) = cputime E s in (elapsed_ge E (t - start) (maxTime par), s1))
      else (False, s))"

subsection \<open>svpReduction (lines 75-160), in the order of the source\<close>

text \<open>Lines 79-86: the LLL reduction of the block.\<close>

definition svp_lll ::
  "'f env \<Rightarrow> int \<Rightarrow> int \<Rightarrow> 'f BKZParam \<Rightarrow> bool \<Rightarrow> 'f bkz_state
     \<Rightarrow> (bool \<times> bool \<times> 'f bkz_state, bool \<times> 'f bkz_state) flow" where
  "svp_lll E kappa blockSize' par clean s =
     (let lllStart = (if flag_set (flags par) BKZ_BOUNDED_LLL then kappa else 0);
          (ok, s1) = lllObj_lll E lllStart kappa (kappa + blockSize') s
      in if \<not> ok then (let (r, s2) = setStatus (lll_status s1) s1 in Return (r, clean, s2))
         else Continue (if lll_nSwaps s1 > 0 then False else clean, s1))"

text \<open>Line 89: is there a preprocessing to run?\<close>

definition preproc_enabled :: "'f BKZParam \<Rightarrow> int \<Rightarrow> bool" where
  "preproc_enabled par blockSize' =
     (case preprocessing par of
        None \<Rightarrow> False
      | Some preproc \<Rightarrow> blockSize preproc < blockSize' \<and> blockSize preproc > 2)"

text \<open>Lines 110-115: the radius is read and the enumeration is called.\<close>

definition svp_enumerate ::
  "('f::times) env \<Rightarrow> 'f BKZParam \<Rightarrow> int \<Rightarrow> int \<Rightarrow> 'f BKZParam \<Rightarrow> 'f bkz_state \<Rightarrow> 'f bkz_state" where
  "svp_enumerate E param kappa blockSize' par s =
     (let ((md, maxDistExpo), s1) = m_getRExp E kappa kappa s;
          s2 = s1\<lparr>maxDist := md\<rparr>;
          s3 = s2\<lparr>deltaMaxDist := delta param * maxDist s2\<rparr>;
          s4 = s3\<lparr>solCoord := []\<rparr>
      in Enumeration_enumerate E maxDistExpo kappa (kappa + blockSize') (pruning par) s4)"

text \<open>
  Lines 121-128: the loop that counts the nonzero coordinates and finds the first one that
  is 1 or -1.  Reading \<^verbatim>\<open>solCoord[i]\<close> past the end of the vector is undefined in C++.
\<close>

function classify_loop ::
  "('f::{zero,one,uminus}) env \<Rightarrow> 'f list \<Rightarrow> int \<Rightarrow> int \<Rightarrow> int \<Rightarrow> int \<Rightarrow> failure + (int \<times> int)" where
  "classify_loop E sol blockSize' i nzVectors iVector =
     (if i < blockSize' then
        (if i < 0 \<or> int (length sol) \<le> i then Inl IndexOutOfRange
         else if sol ! nat i \<noteq> 0 then
           classify_loop E sol blockSize' (i + 1) (nzVectors + 1)
             (if iVector = - 1 \<and> (get_d E (sol ! nat i) = 1 \<or> get_d E (sol ! nat i) = - 1)
              then i else iVector)
         else classify_loop E sol blockSize' (i + 1) nzVectors iVector)
      else Inr (nzVectors, iVector))"
  by pat_completeness auto
termination
  by (relation "measure (\<lambda>(E, sol, blockSize', i, nzVectors, iVector). nat (blockSize' - i))") auto

text \<open>Lines 136-141: the solution is a row of the basis.\<close>

definition insert_basis_row ::
  "'f env \<Rightarrow> int \<Rightarrow> int \<Rightarrow> bool \<Rightarrow> 'f bkz_state \<Rightarrow> failure + (bool \<times> bool \<times> 'f bkz_state)" where
  "insert_basis_row E kappa iVector clean s =
     (if \<not> FPLLL_DEBUG_CHECK E (iVector \<noteq> - 1 \<and> iVector \<noteq> 0) then Inl AssertionFailed
      else
        (let s1 = m_moveRow (kappa + iVector) kappa s;
             (ok, s2) = lllObj_sizeReduction E kappa (kappa + 1) s1
         in if \<not> ok then (let (r, s3) = setStatus (lll_status s2) s2 in Inr (r, clean, s3))
            else Inr (True, False, s2)))"

text \<open>Lines 147-149: the new row becomes the combination of the rows of the block.\<close>

function addmul_loop ::
  "'f list \<Rightarrow> int \<Rightarrow> int \<Rightarrow> int \<Rightarrow> int \<Rightarrow> 'f bkz_state \<Rightarrow> failure + 'f bkz_state" where
  "addmul_loop sol d kappa blockSize' i s =
     (if i < blockSize' then
        (if i < 0 \<or> int (length sol) \<le> i then Inl IndexOutOfRange
         else addmul_loop sol d kappa blockSize' (i + 1) (m_row_addmul d (kappa + i) (sol ! nat i) s))
      else Inr s)"
  by pat_completeness auto
termination
  by (relation "measure (\<lambda>(sol, d, kappa, blockSize', i, s). nat (blockSize' - i))") auto

text \<open>Lines 143-157: the general case.\<close>

definition insert_general ::
  "'f env \<Rightarrow> int \<Rightarrow> int \<Rightarrow> bool \<Rightarrow> 'f bkz_state \<Rightarrow> failure + (bool \<times> bool \<times> 'f bkz_state)" where
  "insert_general E kappa blockSize' clean s =
     (let d = m_d s;
          s1 = m_createRow s;
          s2 = m_rowOpBegin d (d + 1) s1
      in case addmul_loop (solCoord s) d kappa blockSize' 0 s2 of
           Inl e \<Rightarrow> Inl e
         | Inr s3 \<Rightarrow>
             (let s4 = m_rowOpEnd d (d + 1) s3;
                  s5 = m_moveRow d kappa s4;
                  (ok, s6) = lllObj_lll E kappa kappa (kappa + blockSize' + 1) s5
              in if \<not> ok then (let (r, s7) = setStatus (lll_status s6) s6 in Inr (r, clean, s7))
                 else if \<not> FPLLL_DEBUG_CHECK E (b_is_zero E (calls s6) (kappa + blockSize'))
                 then Inl AssertionFailed
                 else
                   (let s7 = m_moveRow (kappa + blockSize') d s6;
                        s8 = m_removeLastRow s7
                    in Inr (True, False, s8))))"

text \<open>Lines 116-159: what is done with the outcome of the enumeration.\<close>

definition svp_insert ::
  "('f::{zero,one,uminus,ord}) env \<Rightarrow> int \<Rightarrow> int \<Rightarrow> bool \<Rightarrow> 'f bkz_state
     \<Rightarrow> failure + (bool \<times> bool \<times> 'f bkz_state)" where
  "svp_insert E kappa blockSize' clean s =
     (if solCoord s = [] then (let (r, s1) = setStatus RED_ENUM_FAILURE s in Inr (r, clean, s1))
      else
        (case classify_loop E (solCoord s) blockSize' 0 0 (- 1) of
           Inl e \<Rightarrow> Inl e
         | Inr (nzVectors, iVector) \<Rightarrow>
             if \<not> FPLLL_DEBUG_CHECK E (nzVectors > 0) then Inl AssertionFailed
             else if maxDist s \<ge> deltaMaxDist s then Inr (True, clean, s)
             else if nzVectors = 1 then insert_basis_row E kappa iVector clean s
             else insert_general E kappa blockSize' clean s))"

text \<open>Lines 110-159.\<close>

definition svp_enum_insert ::
  "('f::{zero,one,uminus,ord,times}) env \<Rightarrow> 'f BKZParam \<Rightarrow> int \<Rightarrow> int \<Rightarrow> 'f BKZParam \<Rightarrow> bool
     \<Rightarrow> 'f bkz_state \<Rightarrow> failure + (bool \<times> bool \<times> 'f bkz_state)" where
  "svp_enum_insert E param kappa blockSize' par clean s =
     svp_insert E kappa blockSize' clean (svp_enumerate E param kappa blockSize' par s)"

subsection \<open>The tour bkzLoop (lines 162-193) and svpReduction as a whole\<close>

text \<open>
  Lines 174-190, after the blocks of a tour: the calls made for the verbose summary and for
  the dump.
\<close>

definition bkzLoop_end ::
  "'f env \<Rightarrow> int \<Rightarrow> 'f BKZParam \<Rightarrow> int \<Rightarrow> int \<Rightarrow> 'f bkz_state \<Rightarrow> 'f bkz_state" where
  "bkzLoop_end E loop par minRow maxRow s =
     (let s1 = (if flag_set (flags par) BKZ_VERBOSE then
                  (let (r0, sa) = m_getRExp E minRow minRow s;
                       (t, sb) = cputime E sa;
                       (sl, sc) = getCurrentSlope E minRow maxRow sb
                   in sc)
                else s)
      in if flag_set (flags par) BKZ_DUMP_GSO then
           (let (t, sa) = cputime E s1 in dumpGSO E (dumpGSOFilename par) True sa)
         else s1)"

text \<open>
  \<^verbatim>\<open>svpReduction\<close>, the loop of its preprocessing (lines 94-107) and the loop over \<open>kappa\<close> of
  \<^verbatim>\<open>bkzLoop\<close> (lines 164-172) call each other.  \<open>param\<close> is the member \<^verbatim>\<open>param\<close> of the object,
  \<open>par\<close> the parameters of the current level.  The results are the value returned, the
  variable \<^verbatim>\<open>clean\<close> (passed by reference in the source), for \<open>bkzLoop_from\<close> also \<^verbatim>\<open>kappaMax\<close>,
  and the state.  \<open>preproc_loop\<close> gives \<open>False\<close> for the \<^verbatim>\<open>return false\<close> of line 101 and \<open>True\<close>
  when the loop is left by a \<^verbatim>\<open>break\<close>.  Only an iteration of the unbounded loop takes fuel.
\<close>

function svpReduction ::
  "nat \<Rightarrow> ('f::{zero,one,uminus,ord,times}) env \<Rightarrow> 'f BKZParam \<Rightarrow> int \<Rightarrow> int \<Rightarrow> 'f BKZParam \<Rightarrow> bool
     \<Rightarrow> 'f bkz_state \<Rightarrow> failure + (bool \<times> bool \<times> 'f bkz_state)"
and preproc_loop ::
  "nat \<Rightarrow> 'f env \<Rightarrow> 'f BKZParam \<Rightarrow> int \<Rightarrow> int \<Rightarrow> 'f BKZParam \<Rightarrow> 'f BKZParam \<Rightarrow> int
     \<Rightarrow> 'f BKZAutoAbort \<Rightarrow> int \<Rightarrow> int \<Rightarrow> bool \<Rightarrow> 'f bkz_state
     \<Rightarrow> failure + (bool \<times> bool \<times> 'f bkz_state)"
and bkzLoop_from ::
  "nat \<Rightarrow> 'f env \<Rightarrow> 'f BKZParam \<Rightarrow> int \<Rightarrow> int \<Rightarrow> 'f BKZParam \<Rightarrow> int \<Rightarrow> int \<Rightarrow> int \<Rightarrow> bool
     \<Rightarrow> 'f bkz_state \<Rightarrow> failure + (bool \<times> bool \<times> int \<times> 'f bkz_state)"
where
  "svpReduction n E param kappa blockSize' par clean s =
     (case svp_lll E kappa blockSize' par clean s of
        Return r \<Rightarrow> Inr r
      | Continue (clean1, s1) \<Rightarrow>
          (if preproc_enabled par blockSize' then
             (let dummyKappaMax = numRows s1;
                  autoAbort = BKZAutoAbort_new E (kappa + blockSize') kappa;
                  (cputimeStart2, s2) = cputime E s1
              in case preproc_loop n E param kappa blockSize' par (the (preprocessing par)) 0
                        autoAbort cputimeStart2 dummyKappaMax clean1 s2 of
                   Inl e \<Rightarrow> Inl e
                 | Inr (ok, clean2, s3) \<Rightarrow>
                     if \<not> ok then Inr (False, clean2, s3)
                     else svp_enum_insert E param kappa blockSize' par clean2 s3)
           else svp_enum_insert E param kappa blockSize' par clean1 s1))"
| "preproc_loop 0 E param kappa blockSize' par preproc i autoAbort cputimeStart2 dummyKappaMax
     clean s = Inl OutOfFuel"
| "preproc_loop (Suc n) E param kappa blockSize' par preproc i autoAbort cputimeStart2
     dummyKappaMax clean s =
     (if flag_set (flags par) BKZ_MAX_LOOPS \<and> i \<ge> maxLoops par then Inr (True, clean, s)
      else
        (let (timeUp, s1) = max_time_test E par cputimeStart2 s
         in if timeUp then Inr (True, clean, s1)
            else
              (let (abort, autoAbort1, s2) =
                     testAbort E (autoAbort_scale par) (autoAbort_maxNoDec par) autoAbort s1
               in if abort then Inr (True, clean, s2)
                  else
                    (case bkzLoop_from n E param i dummyKappaMax preproc kappa
                            (kappa + blockSize') kappa True s2 of
                       Inl e \<Rightarrow> Inl e
                     | Inr (ok, clean2, kappaMax1, s3) \<Rightarrow>
                         if \<not> ok then Inr (False, clean, s3)
                         else if clean2 then Inr (True, clean, s3)
                         else preproc_loop n E param kappa blockSize' par preproc (i + 1)
                                autoAbort1 cputimeStart2 kappaMax1 clean2 s3))))"
| "bkzLoop_from n E param loop kappaMax par minRow maxRow kappa clean s =
     (if kappa < maxRow - 1 then
        (let blockSize' = min (blockSize par) (maxRow - kappa)
         in case svpReduction n E param kappa blockSize' par clean s of
              Inl e \<Rightarrow> Inl e
            | Inr (ok, clean1, s1) \<Rightarrow>
                if \<not> ok then Inr (False, clean1, kappaMax, s1)
                else bkzLoop_from n E param loop
                       (if flag_set (flags par) BKZ_VERBOSE \<and> kappaMax < kappa \<and> clean1
                        then kappa else kappaMax)
                       par minRow maxRow (kappa + 1) clean1 s1)
      else Inr (True, clean, kappaMax, bkzLoop_end E loop par minRow maxRow s))"
  by pat_completeness auto
termination
  by (relation "inv_image (less_than <*lex*> less_than <*lex*> less_than)
     (\<lambda>x. case x of
        Inl (n, E, param, kappa, blockSize', par, clean, s) \<Rightarrow> (n, 1::nat, 0::nat)
      | Inr (Inl (n, r)) \<Rightarrow> (n, 0, 0)
      | Inr (Inr (n, E, param, loop, kappaMax, par, minRow, maxRow, kappa, clean, s)) \<Rightarrow>
          (n, 2, nat (maxRow - kappa)))")
     auto


text \<open>\<^verbatim>\<open>bkzLoop\<close>: the sweep starts at \<open>minRow\<close>.\<close>

definition bkzLoop ::
  "nat \<Rightarrow> ('f::{zero,one,uminus,ord,times}) env \<Rightarrow> 'f BKZParam \<Rightarrow> int \<Rightarrow> int \<Rightarrow> 'f BKZParam
     \<Rightarrow> int \<Rightarrow> int \<Rightarrow> bool \<Rightarrow> 'f bkz_state \<Rightarrow> failure + (bool \<times> bool \<times> int \<times> 'f bkz_state)" where
  "bkzLoop n E param loop kappaMax par minRow maxRow clean s =
     bkzLoop_from n E param loop kappaMax par minRow maxRow minRow clean s"

subsection \<open>bkz (lines 195-243)\<close>

text \<open>
  The main loop, lines 222-235.  It ends with \<open>Return False\<close> for the \<^verbatim>\<open>return false\<close> of line
  233, and with \<open>Continue finalStatus\<close> when it is left by a \<^verbatim>\<open>break\<close>.
\<close>

fun bkz_loop ::
  "nat \<Rightarrow> ('f::{zero,one,uminus,ord,times}) env \<Rightarrow> 'f BKZParam \<Rightarrow> int \<Rightarrow> int \<Rightarrow> 'f BKZAutoAbort
     \<Rightarrow> 'f bkz_state \<Rightarrow> failure + ((bool, int) flow \<times> 'f bkz_state)" where
  "bkz_loop 0 E param iLoop kappaMax autoAbort s = Inl OutOfFuel"
| "bkz_loop (Suc n) E param iLoop kappaMax autoAbort s =
     (if flag_set (flags param) BKZ_MAX_LOOPS \<and> iLoop \<ge> maxLoops param
      then Inr (Continue RED_BKZ_LOOPS_LIMIT, s)
      else
        (let (timeUp, s1) = max_time_test E param (cputimeStart s) s
         in if timeUp then Inr (Continue RED_BKZ_TIME_LIMIT, s1)
            else
              (let (abort, autoAbort1, s2) =
                     (if flag_set (flags param) BKZ_AUTO_ABORT
                      then testAbort E (autoAbort_scale param) (autoAbort_maxNoDec param)
                             autoAbort s1
                      else (False, autoAbort, s1))
               in if abort then Inr (Continue RED_SUCCESS, s2)
                  else
                    (case bkzLoop n E param iLoop kappaMax param 0 (numRows s2) True s2 of
                       Inl e \<Rightarrow> Inl e
                     | Inr (ok, clean, kappaMax1, s3) \<Rightarrow>
                         if \<not> ok then Inr (Return False, s3)
                         else if clean \<or> blockSize param \<ge> numRows s3
                         then Inr (Continue RED_SUCCESS, s3)
                         else bkz_loop n E param (iLoop + 1) kappaMax1 autoAbort1 s3))))"

text \<open>Lines 218-220: the clock is read and all rows are discovered.\<close>

definition bkz_begin :: "'f env \<Rightarrow> 'f bkz_state \<Rightarrow> 'f bkz_state" where
  "bkz_begin E s =
     (let (t, s1) = cputime E s;
          s2 = s1\<lparr>cputimeStart := t\<rparr>
      in m_discoverAllRows s2)"

text \<open>Lines 200-204 and 236-241: the dumps of the input and of the output.\<close>

definition bkz_dump_input :: "'f env \<Rightarrow> 'f BKZParam \<Rightarrow> 'f bkz_state \<Rightarrow> 'f bkz_state" where
  "bkz_dump_input E param s =
     (if flag_set (flags param) BKZ_DUMP_GSO
      then dumpGSO E (dumpGSOFilename param) False s else s)"

definition bkz_dump_output :: "'f env \<Rightarrow> 'f BKZParam \<Rightarrow> 'f bkz_state \<Rightarrow> 'f bkz_state" where
  "bkz_dump_output E param s =
     (if flag_set (flags param) BKZ_DUMP_GSO
      then (let (t, sa) = cputime E s in dumpGSO E (dumpGSOFilename param) True sa)
      else s)"

definition bkz ::
  "nat \<Rightarrow> ('f::{zero,one,uminus,ord,times}) env \<Rightarrow> 'f BKZParam \<Rightarrow> 'f bkz_state
     \<Rightarrow> failure + (bool \<times> 'f bkz_state)" where
  "bkz fuel E param s =
     (let s0 = bkz_dump_input E param s
      in if blockSize param < 2 then Inr (setStatus RED_SUCCESS s0)
         else
           (let kappaMax = 0;
                iLoop = 0;
                autoAbort = BKZAutoAbort_new E (numRows s0) 0
            in case bkz_loop fuel E param iLoop kappaMax autoAbort (bkz_begin E s0) of
                 Inl e \<Rightarrow> Inl e
               | Inr (Return r, s4) \<Rightarrow> Inr (r, s4)
               | Inr (Continue finalStatus, s4) \<Rightarrow>
                   Inr (setStatus finalStatus (bkz_dump_output E param s4))))"

subsection \<open>The behaviour the specification describes\<close>

text \<open>
  Section 4.2 of the specification, steps 1 to 4 of \<^verbatim>\<open>testAbort\<close>, written as one value, with
  \<open>noDec\<close> an integer and \<open>noDec + 1\<close> its successor; its \<open>min\<close> is the \<^verbatim>\<open>min\<close> of the C++
  library.
\<close>

definition testAbort_spec ::
  "('f::{uminus,times,ord}) env \<Rightarrow> 'f \<Rightarrow> int \<Rightarrow> 'f BKZAutoAbort \<Rightarrow> 'f bkz_state
     \<Rightarrow> bool \<times> 'f BKZAutoAbort \<times> 'f bkz_state" where
  "testAbort_spec E scale maxNoDec a s =
     (let newSlope = - fst (getCurrentSlope E (aa_startRow a) (aa_numRows a) s);
          noDec' = (if noDec a = - 1 \<or> newSlope < scale * oldSlope a then 0 else noDec a + 1);
          oldSlope' = std_min (oldSlope a) newSlope
      in (noDec' \<ge> maxNoDec,
          \<lparr>oldSlope = oldSlope', noDec = noDec', aa_numRows = aa_numRows a,
           aa_startRow = aa_startRow a\<rparr>,
          snd (getCurrentSlope E (aa_startRow a) (aa_numRows a) s)))"

text \<open>
  Section 4.3, step D: \<open>nz\<close> is the number of nonzero coordinates of the solution, \<open>iVector\<close>
  the index of the first coordinate that is 1 or -1, and -1 if there is none.
\<close>

definition nzVectors_of :: "('f::zero) list \<Rightarrow> int \<Rightarrow> int" where
  "nzVectors_of sol blockSize' = int (length (filter (\<lambda>x. x \<noteq> 0) (take (nat blockSize') sol)))"

fun first_unit :: "('f::{zero,one,uminus}) env \<Rightarrow> 'f list \<Rightarrow> int \<Rightarrow> int" where
  "first_unit E [] i = - 1"
| "first_unit E (x # xs) i =
     (if x \<noteq> 0 \<and> (get_d E x = 1 \<or> get_d E x = - 1) then i else first_unit E xs (i + 1))"

definition iVector_of :: "('f::{zero,one,uminus}) env \<Rightarrow> 'f list \<Rightarrow> int \<Rightarrow> int" where
  "iVector_of E sol blockSize' = first_unit E (take (nat blockSize') sol) 0"

text \<open>
  The calls of the two ways of inserting the solution: the row that is already in the basis
  is moved and size-reduced; or a row is added, set to the combination and moved to the
  front of the block, the block and this row are reduced (augment), and the zero row that
  results is moved to the end and removed (collapse).
\<close>

definition basis_row_calls :: "int \<Rightarrow> int \<Rightarrow> 'f call list" where
  "basis_row_calls kappa iVector =
     [C_moveRow (kappa + iVector) kappa, C_sizeReduction kappa (kappa + 1)]"

definition augment_calls :: "int \<Rightarrow> int \<Rightarrow> int \<Rightarrow> 'f list \<Rightarrow> 'f call list" where
  "augment_calls d kappa blockSize' sol =
     [C_createRow, C_rowOpBegin d (d + 1)]
     @ map (\<lambda>j. C_row_addmul d (kappa + j) (sol ! nat j)) [0..blockSize' - 1]
     @ [C_rowOpEnd d (d + 1), C_moveRow d kappa, C_lll kappa kappa (kappa + blockSize' + 1)]"



text \<open>
  Section 4.4, the tour: for \<open>kappa\<close> from \<open>minRow\<close> to \<open>maxRow - 2\<close> inclusive, the block at
  \<open>kappa\<close> of size \<open>min(blockSize, maxRow - kappa)\<close> is reduced, and the first failure ends
  the tour; after the sweep come the summary and the dump.
\<close>

fun bkzLoop_blocks ::
  "nat \<Rightarrow> ('f::{zero,one,uminus,ord,times}) env \<Rightarrow> 'f BKZParam \<Rightarrow> 'f BKZParam \<Rightarrow> int \<Rightarrow> int list
     \<Rightarrow> int \<Rightarrow> bool \<Rightarrow> 'f bkz_state \<Rightarrow> failure + (bool \<times> bool \<times> int \<times> 'f bkz_state)" where
  "bkzLoop_blocks n E param par maxRow [] kappaMax clean s = Inr (True, clean, kappaMax, s)"
| "bkzLoop_blocks n E param par maxRow (kappa # kappas) kappaMax clean s =
     (case svpReduction n E param kappa (min (blockSize par) (maxRow - kappa)) par clean s of
        Inl e \<Rightarrow> Inl e
      | Inr (ok, clean1, s1) \<Rightarrow>
          if \<not> ok then Inr (False, clean1, kappaMax, s1)
          else bkzLoop_blocks n E param par maxRow kappas
                 (if flag_set (flags par) BKZ_VERBOSE \<and> kappaMax < kappa \<and> clean1
                  then kappa else kappaMax)
                 clean1 s1)"

definition bkzLoop_spec ::
  "nat \<Rightarrow> ('f::{zero,one,uminus,ord,times}) env \<Rightarrow> 'f BKZParam \<Rightarrow> int \<Rightarrow> int \<Rightarrow> 'f BKZParam
     \<Rightarrow> int \<Rightarrow> int \<Rightarrow> bool \<Rightarrow> 'f bkz_state \<Rightarrow> failure + (bool \<times> bool \<times> int \<times> 'f bkz_state)" where
  "bkzLoop_spec n E param loop kappaMax par minRow maxRow clean s =
     (case bkzLoop_blocks n E param par maxRow [minRow..maxRow - 2] kappaMax clean s of
        Inl e \<Rightarrow> Inl e
      | Inr (ok, clean1, kappaMax1, s1) \<Rightarrow>
          if \<not> ok then Inr (False, clean1, kappaMax1, s1)
          else Inr (True, clean1, kappaMax1, bkzLoop_end E loop par minRow maxRow s1))"

subsection \<open>What the log of a run says\<close>

text \<open>
  An enumeration has failed at the end of the log \<open>h\<close> when the last call of \<open>h\<close> is a call of
  \<^verbatim>\<open>Enumeration::enumerate\<close> that left \<^verbatim>\<open>solCoord\<close> empty.
\<close>

fun is_enumerate :: "'f call \<Rightarrow> bool" where
  "is_enumerate (C_enumerate md e k ke pr) = True"
| "is_enumerate c = False"

definition enum_failed :: "'f env \<Rightarrow> 'f call list \<Rightarrow> bool" where
  "enum_failed E h = (h \<noteq> [] \<and> is_enumerate (last h) \<and> snd (enumerate_result E h) = [])"

text \<open>
  \<open>enum_failure_final E s r s'\<close>: in a run from \<open>s\<close> to \<open>s'\<close> that returned \<open>r\<close>, the log has
  only grown, and an enumeration that failed during the run is the last call of the run,
  which then returned false with the status RED_ENUM_FAILURE.
\<close>

definition enum_failure_final :: "'f env \<Rightarrow> 'f bkz_state \<Rightarrow> bool \<Rightarrow> 'f bkz_state \<Rightarrow> bool" where
  "enum_failure_final E s r s' =
     (\<exists>ext. calls s' = calls s @ ext
        \<and> (\<forall>j<length ext. enum_failed E (calls s @ take (Suc j) ext)
              \<longrightarrow> Suc j = length ext \<and> \<not> r \<and> status s' = RED_ENUM_FAILURE))"

text \<open>
  \<open>status_agrees E s r s'\<close>: a run from \<open>s\<close>, where the status was RED_SUCCESS, to \<open>s'\<close> returned
  whether the status still is RED_SUCCESS.
\<close>

definition status_agrees :: "'f env \<Rightarrow> 'f bkz_state \<Rightarrow> bool \<Rightarrow> 'f bkz_state \<Rightarrow> bool" where
  "status_agrees E s r s' = (if status s = RED_SUCCESS then r = (status s' = RED_SUCCESS) else True)"

text \<open>
  Two notions for the proofs.  A step from \<open>s\<close> to \<open>s'\<close> is quiet when it keeps the status and
  appends calls other than enumerations to the log.  A relation between the state before, the
  value returned and the state after is a step invariant when quiet steps that go on have it,
  it composes along steps that go on, and \<^verbatim>\<open>setStatus\<close> and lines 110-159 of \<^verbatim>\<open>svpReduction\<close>
  have it.
\<close>

definition quiet :: "'f bkz_state \<Rightarrow> 'f bkz_state \<Rightarrow> bool" where
  "quiet s s' =
     (status s' = status s
      \<and> (\<exists>ext. calls s' = calls s @ ext \<and> list_all (\<lambda>c. \<not> is_enumerate c) ext))"

definition step_invariant ::
  "(('f::{zero,one,uminus,ord,times}) env \<Rightarrow> 'f bkz_state \<Rightarrow> bool \<Rightarrow> 'f bkz_state \<Rightarrow> bool) \<Rightarrow> bool" where
  "step_invariant Inv =
     ((\<forall>E s s'. quiet s s' \<longrightarrow> Inv E s True s')
      \<and> (\<forall>E s s1 s2 r. Inv E s True s1 \<longrightarrow> Inv E s1 r s2 \<longrightarrow> Inv E s r s2)
      \<and> (\<forall>E s x. Inv E s (fst (setStatus x s)) (snd (setStatus x s)))
      \<and> (\<forall>E param kappa blockSize' par clean s r c s'.
            svp_enum_insert E param kappa blockSize' par clean s = Inr (r, c, s') \<longrightarrow> Inv E s r s'))"

subsection \<open>Concrete collaborators, parameters and states\<close>

text \<open>
  A release build whose LLL always succeeds without a swap, whose \<open>r(i,i)\<close> is always 1, and
  whose enumeration finds the second vector of the block, of squared norm 1/2.
\<close>

definition E_plain :: "real env" where
  "E_plain =
     \<lparr>lll_result = (\<lambda>h. (True, 0, 0)),
      sizeReduction_result = (\<lambda>h. (True, 0, 0)),
      enumerate_result = (\<lambda>h. (1 / 2, [0, 1])),
      getRExp_result = (\<lambda>h. (1, 0)),
      cputime_result = (\<lambda>h. int (length h)),
      b_is_zero = (\<lambda>h i. True),
      get_d = (\<lambda>x. x),
      lsq_slope = (\<lambda>startRow stopRow x. 0),
      elapsed_ge = (\<lambda>ms t. t \<le> real_of_int ms * (1 / 1000)),
      double_max = 2 ^ 1024,
      debug = False\<rparr>"

text \<open>Block size 2, \<open>delta = 0.99\<close>, no flag, no preprocessing.\<close>

definition P_plain :: "real BKZParam" where
  "P_plain = BKZParam 2 (99 / 100) 0 0 0 1 5 [] None []"

text \<open>A basis of two rows, in a freshly constructed driver.\<close>

definition s_plain :: "real bkz_state" where
  "s_plain =
     \<lparr>status = 0, numRows = 2, cputimeStart = 0, maxDist = 0, deltaMaxDist = 0,
      m_d = 2, lll_status = 0, lll_nSwaps = 0, solCoord = [], calls = []\<rparr>"


definition s_double_row :: "real bkz_state" where
  "s_double_row = s_plain\<lparr>maxDist := 1 / 2, deltaMaxDist := 99 / 100, solCoord := [0, 2]\<rparr>"


text \<open>
  A debug build whose enumeration finds nothing shorter than the first vector of the block.
\<close>

definition E_leading :: "real env" where
  "E_leading = E_plain\<lparr>enumerate_result := (\<lambda>h. (1, [1, 0])), debug := True\<rparr>"

text \<open>
  A release build whose enumeration finds the sum of the two rows of the block, and whose
  LLL fails once a row has been added to the basis.
\<close>

definition E_post_lll_fails :: "real env" where
  "E_post_lll_fails =
     E_plain\<lparr>lll_result := (\<lambda>h. if C_createRow \<in> set h then (False, RED_LLL_FAILURE, 0)
                                 else (True, 0, 0)),
             enumerate_result := (\<lambda>h. (1 / 2, [1, 1]))\<rparr>"

text \<open>As \<open>P_plain\<close>, with the cap on the tours set to 0, and with the cap on the time set to 0.\<close>

definition P_no_loops :: "real BKZParam" where
  "P_no_loops = BKZParam 2 (99 / 100) BKZ_MAX_LOOPS 0 0 1 5 [] None []"

definition P_no_time :: "real BKZParam" where
  "P_no_time = BKZParam 2 (99 / 100) BKZ_MAX_TIME 0 0 1 5 [] None []"

text \<open>A detector over the two rows that has seen three tours without progress.\<close>

definition a_stalled :: "real BKZAutoAbort" where
  "a_stalled = \<lparr>oldSlope = 0, noDec = 3, aa_numRows = 2, aa_startRow = 0\<rparr>"

text \<open>A release build whose enumeration finds nothing.\<close>

definition E_enum_fails :: "real env" where
  "E_enum_fails = E_plain\<lparr>enumerate_result := (\<lambda>h. (1, []))\<rparr>"

text \<open>
  Block size 4 with a preprocessing of block size 3, and a basis of four rows: the block at
  row 0 is preprocessed by a tour of blocks of size 3.
\<close>

definition P_inner :: "real BKZParam" where
  "P_inner = BKZParam 3 (99 / 100) 0 0 0 1 5 [] None []"

definition P_nested :: "real BKZParam" where
  "P_nested = BKZParam 4 (99 / 100) 0 0 0 1 5 [] (Some P_inner) []"

definition s_four :: "real bkz_state" where
  "s_four = s_plain\<lparr>numRows := 4, m_d := 4\<rparr>"

text \<open>
  A release build whose first enumeration finds nothing shorter than the first vector of the
  block and whose later enumerations find nothing, and a basis of three rows: the second
  block of the first tour fails.
\<close>

definition E_second_enum_fails :: "real env" where
  "E_second_enum_fails =
     E_plain\<lparr>enumerate_result := (\<lambda>h. if 2 \<le> length (filter is_enumerate h) then (1, [])
                                       else (1, [1, 0]))\<rparr>"

definition s_three :: "real bkz_state" where
  "s_three = s_plain\<lparr>numRows := 3, m_d := 3\<rparr>"

section \<open>Properties\<close>

declare classify_loop.simps [simp del] addmul_loop.simps [simp del]
declare getCurrentSlope_rows.simps [simp del] dumpGSO_rows.simps [simp del]
declare BKZReduction_scan.simps [simp del]
declare svpReduction.simps [simp del] bkzLoop_from.simps [simp del]

subsection \<open>testAbort\<close>

lemma std_min_linorder: "std_min (a::'a::linorder) b = min a b"
  by (auto simp: std_min_def min_def)

lemma int32_wrap_id: "INT_MIN \<le> x \<Longrightarrow> x \<le> INT_MAX \<Longrightarrow> int32_wrap x = x"
  by (simp add: int32_wrap_def INT_MIN_def INT_MAX_def)

lemma int32_wrap_range: "INT_MIN \<le> int32_wrap x \<and> int32_wrap x \<le> INT_MAX"
proof -
  have "0 \<le> (x + 2147483648) mod 4294967296" and "(x + 2147483648) mod 4294967296 < 4294967296"
    by simp_all
  then show ?thesis by (simp add: int32_wrap_def INT_MIN_def INT_MAX_def)
qed

text \<open>
  A call that returns false leaves \<open>noDec\<close> below \<open>maxNoDec\<close>, hence below \<open>INT_MAX\<close>.  The loops
  of \<^verbatim>\<open>bkz\<close> and of the preprocessing stop at the first call that returns true, and a new
  detector has \<open>noDec = -1\<close>: every call they make starts with \<open>noDec\<close> between \<open>INT_MIN\<close> and
  \<open>INT_MAX - 1\<close>.
\<close>

lemma testAbort_false_noDec:
  assumes "\<not> fst (testAbort E scale maxNoDec a s)" and "maxNoDec \<le> INT_MAX"
  shows "INT_MIN \<le> noDec (fst (snd (testAbort E scale maxNoDec a s)))
       \<and> noDec (fst (snd (testAbort E scale maxNoDec a s))) < INT_MAX"
proof -
  have r: "INT_MIN \<le> noDec (fst (snd (testAbort E scale maxNoDec a s)))"
    using int32_wrap_range [of "noDec a + 1"]
    by (simp add: testAbort_def Let_def case_prod_beta INT_MIN_def)
  have "noDec (fst (snd (testAbort E scale maxNoDec a s))) < maxNoDec"
    using assms(1) by (simp add: testAbort_def Let_def case_prod_beta)
  then show ?thesis using r assms(2) by simp
qed

lemma BKZAutoAbort_new_noDec:
  "INT_MIN \<le> noDec (BKZAutoAbort_new E nRows startRow)
   \<and> noDec (BKZAutoAbort_new E nRows startRow) < INT_MAX"
  by (simp add: BKZAutoAbort_new_def INT_MIN_def INT_MAX_def)

text \<open>
  At \<open>noDec = INT_MAX\<close> the increment overflows, which C++ leaves undefined; on the machine it
  wraps around: the detector is left with \<open>INT_MIN\<close> and the call returns false.
\<close>

lemma testAbort_at_INT_MAX:
  "testAbort E_plain 1 5 (a_stalled\<lparr>noDec := INT_MAX\<rparr>) s_plain =
     (False, a_stalled\<lparr>noDec := INT_MIN\<rparr>,
      snd (getCurrentSlope E_plain 0 2 s_plain))"
  by (simp add: testAbort_def getCurrentSlope_def a_stalled_def E_plain_def std_min_def
      int32_wrap_def INT_MAX_def INT_MIN_def Let_def case_prod_beta)

text \<open>
  C5: every call of \<^verbatim>\<open>testAbort(scale, maxNoDec)\<close> whose increment of \<open>noDec\<close> does not leave
  the machine integers computes what section 4.2 of the specification says: with \<open>newSlope\<close>
  the negated slope over the rows of the detector, \<open>noDec\<close> becomes 0 if it was -1 or if
  \<open>newSlope < scale * oldSlope\<close>, and \<open>noDec + 1\<close> otherwise; \<open>oldSlope\<close> becomes the minimum of
  \<open>oldSlope\<close> and \<open>newSlope\<close>; and the value returned says whether the new \<open>noDec\<close> is at least
  \<open>maxNoDec\<close>.
\<close>

theorem testAbort_refines_spec:
  assumes "INT_MIN \<le> noDec a" and "noDec a < INT_MAX"
  shows "testAbort E scale maxNoDec a s = testAbort_spec E scale maxNoDec a s"
proof -
  have "int32_wrap (noDec a + 1) = noDec a + 1"
    using assms by (intro int32_wrap_id) simp_all
  then show ?thesis
    by (cases a) (simp add: testAbort_def testAbort_spec_def Let_def split: prod.splits)
qed

theorem testAbort_refines_spec_witness:
  "INT_MIN \<le> noDec a_stalled \<and> noDec a_stalled < INT_MAX
   \<and> testAbort E_plain 1 5 a_stalled s_plain = testAbort_spec E_plain 1 5 a_stalled s_plain
   \<and> testAbort_spec E_plain 1 5 a_stalled s_plain =
       (False, a_stalled\<lparr>noDec := 4\<rparr>, snd (getCurrentSlope E_plain 0 2 s_plain))"
  using testAbort_refines_spec [of a_stalled E_plain 1 5 s_plain]
  by (simp add: testAbort_spec_def getCurrentSlope_def a_stalled_def E_plain_def std_min_def
      INT_MAX_def INT_MIN_def Let_def case_prod_beta)

text \<open>
  C2, as the code has it: on a detector that has never been evaluated (\<open>noDec = -1\<close>), the
  first call of \<^verbatim>\<open>testAbort\<close> returns false for every \<open>maxNoDec\<close> of at least 1, whatever the
  scale and the slope are.
\<close>

theorem testAbort_first_call:
  "noDec a = - 1 \<Longrightarrow> 1 \<le> maxNoDec \<Longrightarrow> \<not> fst (testAbort E scale maxNoDec a s)"
  by (simp add: testAbort_def Let_def split: prod.splits)

theorem testAbort_first_call_witness:
  "noDec (BKZAutoAbort_new E_plain 2 0) = - 1 \<and> (1::int) \<le> 5
   \<and> \<not> fst (testAbort E_plain 1 5 (BKZAutoAbort_new E_plain 2 0) s_plain)"
  using testAbort_first_call [of "BKZAutoAbort_new E_plain 2 0" 5 E_plain 1 s_plain]
  by (simp add: BKZAutoAbort_new_def)

text \<open>
  C2, as the specification has it, fails for \<open>maxNoDec = 0\<close>: the first call resets \<open>noDec\<close>
  to 0 and returns \<open>0 \<ge> 0\<close>.
\<close>

theorem testAbort_first_call_zero:
  "(0::int) \<le> 0 \<and> fst (testAbort E_plain 1 0 (BKZAutoAbort_new E_plain 2 0) s_plain)"
  by (simp add: testAbort_def BKZAutoAbort_new_def Let_def split: prod.splits)

subsection \<open>The insertion decision of svpReduction\<close>

text \<open>The loop of lines 121-128 computes \<open>nz\<close> and \<open>iVector\<close> of the specification.\<close>

lemma classify_loop_eq:
  "0 \<le> i \<Longrightarrow> blockSize' \<le> int (length sol) \<Longrightarrow>
   classify_loop E sol blockSize' i nz iv =
     Inr (nz + int (length (filter (\<lambda>x. x \<noteq> 0) (drop (nat i) (take (nat blockSize') sol)))),
          if iv \<noteq> - 1 then iv else first_unit E (drop (nat i) (take (nat blockSize') sol)) i)"
proof (induction E sol blockSize' i nz iv rule: classify_loop.induct)
  case (1 E sol bs i nz iv)
  show ?case
  proof (cases "i < bs")
    case False
    then have "drop (nat i) (take (nat bs) sol) = []" by simp
    with False show ?thesis by (subst classify_loop.simps) simp
  next
    case True
    with "1.prems" have len: "nat i < length (take (nat bs) sol)" by simp
    have split: "drop (nat i) (take (nat bs) sol) =
                   sol ! nat i # drop (nat (i + 1)) (take (nat bs) sol)"
      using Cons_nth_drop_Suc [OF len] "1.prems"(1) True
      by (simp add: nat_add_distrib)
    have inr: "\<not> (i < 0 \<or> int (length sol) \<le> i)" using True "1.prems" by simp
    show ?thesis
    proof (cases "sol ! nat i \<noteq> 0")
      case nz: True
      have "classify_loop E sol bs i nz iv =
            classify_loop E sol bs (i + 1) (nz + 1)
              (if iv = - 1 \<and> (get_d E (sol ! nat i) = 1 \<or> get_d E (sol ! nat i) = - 1)
               then i else iv)"
        using True inr nz by (subst classify_loop.simps) simp
      also have "\<dots> = Inr (nz + 1 + int (length (filter (\<lambda>x. x \<noteq> 0) (drop (nat (i + 1)) (take (nat bs) sol)))),
             if (if iv = - 1 \<and> (get_d E (sol ! nat i) = 1 \<or> get_d E (sol ! nat i) = - 1)
               then i else iv) \<noteq> - 1 then (if iv = - 1 \<and> (get_d E (sol ! nat i) = 1 \<or> get_d E (sol ! nat i) = - 1)
               then i else iv) else first_unit E (drop (nat (i + 1)) (take (nat bs) sol)) (i + 1))"
        using "1.IH"(1) [OF True inr nz] "1.prems" by simp
      finally show ?thesis using nz "1.prems"(1) by (simp add: split)
    next
      case z: False
      have "classify_loop E sol bs i nz iv = classify_loop E sol bs (i + 1) nz iv"
        using True inr z by (subst classify_loop.simps) simp
      also have "\<dots> = Inr (nz + int (length (filter (\<lambda>x. x \<noteq> 0) (drop (nat (i + 1)) (take (nat bs) sol)))),
             if iv \<noteq> - 1 then iv else first_unit E (drop (nat (i + 1)) (take (nat bs) sol)) (i + 1))"
        using "1.IH"(2) [OF True inr z] "1.prems" by simp
      finally show ?thesis using z by (simp add: split)
    qed
  qed
qed

lemma classify_loop_start:
  "blockSize' \<le> int (length sol) \<Longrightarrow>
   classify_loop E sol blockSize' 0 0 (- 1) = Inr (nzVectors_of sol blockSize', iVector_of E sol blockSize')"
  using classify_loop_eq [of 0 blockSize' sol E 0 "- 1"]
  by (simp add: nzVectors_of_def iVector_of_def)

lemma addmul_loop_eq:
  "0 \<le> i \<Longrightarrow> blockSize' \<le> int (length sol) \<Longrightarrow>
   addmul_loop sol d kappa blockSize' i s =
     Inr (s\<lparr>calls := calls s @ map (\<lambda>j. C_row_addmul d (kappa + j) (sol ! nat j)) [i..blockSize' - 1]\<rparr>)"
proof (induction sol d kappa blockSize' i s rule: addmul_loop.induct)
  case (1 sol d kappa bs i s)
  show ?case
  proof (cases "i < bs")
    case False
    then show ?thesis by (subst addmul_loop.simps) simp
  next
    case True
    have inr: "\<not> (i < 0 \<or> int (length sol) \<le> i)" using True "1.prems" by simp
    have up: "[i..bs - 1] = i # [i + 1..bs - 1]" using True by (simp add: upto_rec1)
    show ?thesis
      using True inr "1.IH" [OF True inr] "1.prems"
      by (subst addmul_loop.simps) (simp add: up m_row_addmul_def)
  qed
qed


lemma svp_insert_cases:
  assumes "solCoord s \<noteq> []" and "blockSize' \<le> int (length (solCoord s))"
  shows "svp_insert E kappa blockSize' clean s =
     (if \<not> FPLLL_DEBUG_CHECK E (0 < nzVectors_of (solCoord s) blockSize') then Inl AssertionFailed
      else if deltaMaxDist s \<le> maxDist s then Inr (True, clean, s)
      else if nzVectors_of (solCoord s) blockSize' = 1
      then insert_basis_row E kappa (iVector_of E (solCoord s) blockSize') clean s
      else insert_general E kappa blockSize' clean s)"
  using assms by (simp add: svp_insert_def classify_loop_start)

lemma insert_basis_row_release:
  assumes "\<not> debug E"
  shows "\<exists>r c s'. insert_basis_row E kappa iVector clean s = Inr (r, c, s')
           \<and> calls s' = calls s @ basis_row_calls kappa iVector"
  using assms
  by (auto simp: insert_basis_row_def FPLLL_DEBUG_CHECK_def m_moveRow_def lllObj_sizeReduction_def
      setStatus_def basis_row_calls_def Let_def split: prod.splits)



text \<open>The first call after the enumeration tells the two ways of inserting apart.\<close>

lemma insertion_calls_distinct:
  "basis_row_calls kappa iVector \<noteq> augment_calls d kappa' blockSize' sol @ rest"
  by (simp add: basis_row_calls_def augment_calls_def)

text \<open>
  A solution that is the first row of the block (\<open>nz = 1\<close> and \<open>iVector = 0\<close>) is what the
  assertion of line 137 excludes: its squared norm is \<open>r(kappa,kappa)\<close>, which does not pass
  the delta-test for \<open>delta \<le> 1\<close>.  A debug build stops there.
\<close>

lemma insert_basis_row_first_row:
  "debug E \<Longrightarrow> insert_basis_row E kappa 0 clean s = Inl AssertionFailed"
  by (simp add: insert_basis_row_def FPLLL_DEBUG_CHECK_def)



text \<open>
  C6: when the enumeration returns a solution whose squared norm is at least
  \<open>deltaMaxDist\<close>, which is \<open>delta\<close> times the \<open>r(kappa,kappa)\<close> read before the enumeration,
  lines 110-159 of \<^verbatim>\<open>svpReduction\<close> return true, \<open>clean\<close> is what it was, and the log ends with
  the call of the enumeration: no collaborator is called after it.
\<close>

theorem svp_delta_test_no_insertion:
  assumes "getRExp_result E (calls s @ [C_getRExp kappa kappa]) = (r, expo)"
    and "enumerate_result E (calls s @ [C_getRExp kappa kappa,
           C_enumerate r expo kappa (kappa + blockSize') (pruning par)]) = (nd, sol)"
    and "sol \<noteq> []" and "blockSize' \<le> int (length sol)"
    and "FPLLL_DEBUG_CHECK E (0 < nzVectors_of sol blockSize')"
    and "delta param * r \<le> nd"
  shows "svp_enum_insert E param kappa blockSize' par clean s =
     Inr (True, clean,
          s\<lparr>maxDist := nd, deltaMaxDist := delta param * r, solCoord := sol,
            calls := calls s @ [C_getRExp kappa kappa,
              C_enumerate r expo kappa (kappa + blockSize') (pruning par)]\<rparr>)"
proof -
  have en: "svp_enumerate E param kappa blockSize' par s =
      s\<lparr>maxDist := nd, deltaMaxDist := delta param * r, solCoord := sol,
            calls := calls s @ [C_getRExp kappa kappa,
              C_enumerate r expo kappa (kappa + blockSize') (pruning par)]\<rparr>"
    using assms(1,2)
    by (simp add: svp_enumerate_def m_getRExp_def Enumeration_enumerate_def Let_def)
  show ?thesis
    unfolding svp_enum_insert_def en
    using assms(3-6) by (subst svp_insert_cases) simp_all
qed

theorem svp_delta_test_no_insertion_witness:
  "getRExp_result E_leading ([] @ [C_getRExp 0 0]) = (1, 0)
   \<and> enumerate_result E_leading ([] @ [C_getRExp 0 0, C_enumerate 1 0 0 (0 + 2) []]) = (1, [1, 0])
   \<and> [1, 0 :: real] \<noteq> [] \<and> 2 \<le> int (length [1, 0 :: real])
   \<and> FPLLL_DEBUG_CHECK E_leading (0 < nzVectors_of [1, 0 :: real] 2)
   \<and> delta P_plain * 1 \<le> (1 :: real)
   \<and> svp_enum_insert E_leading P_plain 0 2 P_plain True s_plain =
       Inr (True, True, s_plain\<lparr>maxDist := 1, deltaMaxDist := 99 / 100, solCoord := [1, 0],
              calls := [C_getRExp 0 0, C_enumerate 1 0 0 2 []]\<rparr>)"
  using svp_delta_test_no_insertion [of E_leading s_plain 0 1 0 2 P_plain 1 "[1, 0]" P_plain True]
  by (simp add: E_leading_def E_plain_def s_plain_def P_plain_def FPLLL_DEBUG_CHECK_def
      nzVectors_of_def)

lemma first_unit_none:
  "\<forall>x\<in>set xs. x = 0 \<or> (get_d E x \<noteq> 1 \<and> get_d E x \<noteq> - 1) \<Longrightarrow> first_unit E xs i = - 1"
  by (induction xs arbitrary: i) auto


text \<open>
  C9: if the solution passes the delta-test, has exactly one nonzero coordinate, and that
  coordinate is neither 1 nor -1, then \<open>iVector\<close> is still -1 and a release build calls
  \<^verbatim>\<open>m.moveRow(kappa - 1, kappa)\<close>, then the size reduction; only a debug build stops, on the
  assertion of line 137.
\<close>

theorem svp_insert_moves_row_before_block:
  assumes "solCoord s \<noteq> []" and "blockSize' \<le> int (length (solCoord s))"
    and "\<not> deltaMaxDist s \<le> maxDist s"
    and "nzVectors_of (solCoord s) blockSize' = 1"
    and "\<forall>x\<in>set (take (nat blockSize') (solCoord s)). x = 0 \<or> (get_d E x \<noteq> 1 \<and> get_d E x \<noteq> - 1)"
  shows "iVector_of E (solCoord s) blockSize' = - 1
     \<and> (if debug E then svp_insert E kappa blockSize' clean s = Inl AssertionFailed
        else (\<exists>r c s'. svp_insert E kappa blockSize' clean s = Inr (r, c, s')
                \<and> calls s' = calls s @ [C_moveRow (kappa - 1) kappa, C_sizeReduction kappa (kappa + 1)]))"
proof -
  have iv: "iVector_of E (solCoord s) blockSize' = - 1"
    using assms(5) by (simp add: iVector_of_def first_unit_none)
  have eq: "svp_insert E kappa blockSize' clean s = insert_basis_row E kappa (- 1) clean s"
    using assms(1-4) iv by (simp add: svp_insert_cases FPLLL_DEBUG_CHECK_def)
  show ?thesis
  proof (cases "debug E")
    case True
    then show ?thesis using iv eq by (simp add: insert_basis_row_def FPLLL_DEBUG_CHECK_def)
  next
    case False
    then show ?thesis
      using iv eq insert_basis_row_release [OF False, of kappa "- 1" clean s]
      by (simp add: basis_row_calls_def)
  qed
qed

theorem svp_insert_moves_row_before_block_witness:
  "solCoord s_double_row \<noteq> [] \<and> 2 \<le> int (length (solCoord s_double_row))
   \<and> \<not> deltaMaxDist s_double_row \<le> maxDist s_double_row
   \<and> nzVectors_of (solCoord s_double_row) 2 = 1
   \<and> get_d E_plain 2 \<noteq> 1 \<and> get_d E_plain 2 \<noteq> - 1
   \<and> \<not> debug E_plain
   \<and> iVector_of E_plain (solCoord s_double_row) 2 = - 1
   \<and> (\<exists>r c s'. svp_insert E_plain 0 2 True s_double_row = Inr (r, c, s')
         \<and> calls s' = [C_moveRow (- 1) 0, C_sizeReduction 0 1])"
  using svp_insert_moves_row_before_block [of s_double_row 2 E_plain 0 True]
  by (simp add: E_plain_def s_double_row_def s_plain_def nzVectors_of_def)

text \<open>
  The number of rows across lines 116-159: it is the same on every return but the one that
  follows a failed LLL reduction of the block with the added row (line 153), where it is one
  more.
\<close>

lemma m_d_addmul_loop:
  "addmul_loop sol d kappa blockSize' i s = Inr s' \<Longrightarrow> m_d s' = m_d s"
proof (induction sol d kappa blockSize' i s rule: addmul_loop.induct)
  case (1 sol d kappa bs i s)
  show ?case
  proof (cases "i < bs")
    case False
    then show ?thesis using "1.prems" by (subst (asm) addmul_loop.simps) simp
  next
    case True
    show ?thesis
    proof (cases "i < 0 \<or> int (length sol) \<le> i")
      case oor: True
      then show ?thesis using True "1.prems" by (subst (asm) addmul_loop.simps) simp
    next
      case inr: False
      have "addmul_loop sol d kappa bs (i + 1) (m_row_addmul d (kappa + i) (sol ! nat i) s) = Inr s'"
        using True inr "1.prems" by (subst (asm) addmul_loop.simps) simp
      then show ?thesis
        using "1.IH" [OF True inr] by (simp add: m_row_addmul_def)
    qed
  qed
qed

lemma svp_insert_row_count:
  assumes "svp_insert E kappa blockSize' clean s = Inr (r, c, s')"
  shows "m_d s' = m_d s
       \<or> (m_d s' = m_d s + 1 \<and> status s' = lll_status s' \<and> r = (lll_status s' = RED_SUCCESS)
           \<and> last (calls s') = C_lll kappa kappa (kappa + blockSize' + 1)
           \<and> \<not> fst (lll_result E (calls s')))"
proof (cases "solCoord s = []")
  case True
  then show ?thesis using assms by (auto simp: svp_insert_def setStatus_def Let_def)
next
  case False
  show ?thesis
  proof (cases "classify_loop E (solCoord s) blockSize' 0 0 (- 1)")
    case (Inl e)
    then show ?thesis using assms False by (simp add: svp_insert_def)
  next
    case (Inr p)
    obtain nz iv where p: "p = (nz, iv)" by (cases p)
    consider (skip) "s' = s"
      | (row) "insert_basis_row E kappa iv clean s = Inr (r, c, s')"
      | (gen) "insert_general E kappa blockSize' clean s = Inr (r, c, s')"
      using assms False Inr p by (auto simp: svp_insert_def split: if_splits)
    then show ?thesis
    proof cases
      case skip
      then show ?thesis by simp
    next
      case row
      then show ?thesis
        by (auto simp: insert_basis_row_def m_moveRow_def lllObj_sizeReduction_def setStatus_def
            Let_def case_prod_beta split: if_splits)
    next
      case gen
      let ?d = "m_d s"
      let ?s2 = "m_rowOpBegin ?d (?d + 1) (m_createRow s)"
      obtain s3 where a: "addmul_loop (solCoord s) ?d kappa blockSize' 0 ?s2 = Inr s3"
        using gen by (cases "addmul_loop (solCoord s) ?d kappa blockSize' 0 ?s2")
          (simp_all add: insert_general_def Let_def)
      have d3: "m_d s3 = m_d s + 1"
        using m_d_addmul_loop [OF a] by (simp add: m_rowOpBegin_def m_createRow_def)
      show ?thesis
        using gen a d3
        by (auto simp: insert_general_def m_moveRow_def m_rowOpEnd_def m_removeLastRow_def
            lllObj_lll_def setStatus_def Let_def case_prod_beta split: if_splits)
    qed
  qed
qed


text \<open>
  C4 fails on the code: when the LLL reduction of line 152 fails, \<^verbatim>\<open>svpReduction\<close> returns at
  line 153, before the row created at line 145 is removed at line 156, and the basis has
  one row more than on entry; \<^verbatim>\<open>bkz\<close> then returns false with that basis.
\<close>

theorem svpReduction_leaves_extra_row:
  "(case svpReduction 0 E_post_lll_fails P_plain 0 2 P_plain True s_plain of
      Inl e \<Rightarrow> False
    | Inr (r, c, s') \<Rightarrow> \<not> r \<and> status s' = RED_LLL_FAILURE \<and> m_d s' = m_d s_plain + 1)
   \<and> (case bkz 1 E_post_lll_fails P_plain s_plain of
      Inl e \<Rightarrow> False
    | Inr (r, s') \<Rightarrow> \<not> r \<and> status s' = RED_LLL_FAILURE \<and> m_d s' = m_d s_plain + 1)"
  by (simp add: svpReduction.simps bkz_def bkz_dump_input_def bkz_dump_output_def bkzLoop_def
      bkzLoop_from.simps bkz_begin_def BKZAutoAbort_new_def max_time_test_def svp_lll_def
      preproc_enabled_def svp_enum_insert_def svp_enumerate_def E_post_lll_fails_def E_plain_def
      P_plain_def s_plain_def flag_set_def BKZ_BOUNDED_LLL_def BKZ_DUMP_GSO_def
      BKZ_MAX_LOOPS_def BKZ_MAX_TIME_def BKZ_AUTO_ABORT_def BKZ_VERBOSE_def lllObj_lll_def
      m_getRExp_def Enumeration_enumerate_def cputime_def m_discoverAllRows_def
      svp_insert_cases nzVectors_of_def FPLLL_DEBUG_CHECK_def insert_general_def
      addmul_loop_eq m_createRow_def m_rowOpBegin_def m_rowOpEnd_def m_moveRow_def
      m_row_addmul_def setStatus_def RED_LLL_FAILURE_def RED_SUCCESS_def Let_def)


subsection \<open>The tour\<close>

lemma bkzLoop_from_blocks:
  "bkzLoop_from n E param loop kappaMax par minRow maxRow kappa clean s =
     (case bkzLoop_blocks n E param par maxRow [kappa..maxRow - 2] kappaMax clean s of
        Inl e \<Rightarrow> Inl e
      | Inr (ok, clean1, kappaMax1, s1) \<Rightarrow>
          if \<not> ok then Inr (False, clean1, kappaMax1, s1)
          else Inr (True, clean1, kappaMax1, bkzLoop_end E loop par minRow maxRow s1))"
proof (induction "nat (maxRow - 1 - kappa)" arbitrary: kappa kappaMax clean s)
  case 0
  then have "\<not> kappa < maxRow - 1" by simp
  then show ?case by (subst bkzLoop_from.simps) simp
next
  case (Suc m)
  then have lt: "kappa < maxRow - 1" and m: "m = nat (maxRow - 1 - (kappa + 1))" by linarith+
  have up: "[kappa..maxRow - 2] = kappa # [kappa + 1..maxRow - 2]"
    using lt by (simp add: upto_rec1)
  show ?case
    using lt Suc.hyps(1) [OF m]
    by (subst bkzLoop_from.simps) (simp add: up Let_def split: sum.splits prod.splits)
qed

text \<open>
  C8: a tour reduces the blocks that start at \<open>minRow\<close>, \<open>minRow + 1\<close>, ..., \<open>maxRow - 2\<close>, in
  this order, each of size \<open>min(blockSize, maxRow - kappa)\<close>, stops at the first block that
  fails and returns its failure; the rows swept are those from \<open>minRow\<close> below \<open>maxRow - 1\<close>, so
  that no block starts at \<open>maxRow - 1\<close>.
\<close>

theorem bkzLoop_sweeps_blocks:
  "bkzLoop n E param loop kappaMax par minRow maxRow clean s =
     bkzLoop_spec n E param loop kappaMax par minRow maxRow clean s
   \<and> set [minRow..maxRow - 2] = {kappa. minRow \<le> kappa \<and> kappa < maxRow - 1}"
  by (auto simp: bkzLoop_def bkzLoop_spec_def bkzLoop_from_blocks)

theorem bkzLoop_sweeps_blocks_witness:
  "bkzLoop 0 E_plain P_plain 0 0 P_plain 0 3 True s_plain =
     bkzLoop_spec 0 E_plain P_plain 0 0 P_plain 0 3 True s_plain
   \<and> set [0..3 - 2] = {kappa. (0::int) \<le> kappa \<and> kappa < 3 - 1}"
  using bkzLoop_sweeps_blocks [of 0 E_plain P_plain 0 0 P_plain 0 3 True s_plain]
  by simp

subsection \<open>The caps on the tours and on the time\<close>

text \<open>
  C1, as the code has it.  At an iteration of the main loop where BKZ_MAX_LOOPS is set and
  \<open>iLoop \<ge> maxLoops\<close>, the loop is left with the final status RED_BKZ_LOOPS_LIMIT; where this
  is not so, BKZ_MAX_TIME is set and the elapsed time has reached \<open>maxTime\<close>, it is left with
  RED_BKZ_TIME_LIMIT.  When the loop is left with one of these, \<^verbatim>\<open>bkz\<close> records it as the status
  and returns false, since \<^verbatim>\<open>setStatus\<close> returns \<^verbatim>\<open>status == RED_SUCCESS\<close>.  In particular, with a block
  size of at least 2, BKZ_MAX_LOOPS set and \<open>maxLoops \<le> 0\<close>, \<^verbatim>\<open>bkz\<close> returns false with the status
  RED_BKZ_LOOPS_LIMIT after the calls it makes before and after the loop, without a tour.
\<close>

theorem bkz_budget_exhausted:
  "(flag_set (flags param) BKZ_MAX_LOOPS \<and> maxLoops param \<le> iLoop \<longrightarrow>
      bkz_loop (Suc n) E param iLoop kappaMax autoAbort si = Inr (Continue RED_BKZ_LOOPS_LIMIT, si))
   \<and> (\<not> (flag_set (flags param) BKZ_MAX_LOOPS \<and> maxLoops param \<le> iLoop)
        \<and> flag_set (flags param) BKZ_MAX_TIME
        \<and> elapsed_ge E (fst (cputime E si) - cputimeStart si) (maxTime param) \<longrightarrow>
      bkz_loop (Suc n) E param iLoop kappaMax autoAbort si =
        Inr (Continue RED_BKZ_TIME_LIMIT, snd (cputime E si)))
   \<and> (2 \<le> blockSize param
        \<and> bkz_loop fuel E param 0 0 (BKZAutoAbort_new E (numRows (bkz_dump_input E param s)) 0)
            (bkz_begin E (bkz_dump_input E param s)) = Inr (Continue st, s4)
        \<and> (st = RED_BKZ_LOOPS_LIMIT \<or> st = RED_BKZ_TIME_LIMIT) \<longrightarrow>
      bkz fuel E param s = Inr (False, (bkz_dump_output E param s4)\<lparr>status := st\<rparr>))
   \<and> (2 \<le> blockSize param \<and> flag_set (flags param) BKZ_MAX_LOOPS \<and> maxLoops param \<le> 0 \<longrightarrow>
      bkz (Suc n) E param s =
        Inr (False, (bkz_dump_output E param (bkz_begin E (bkz_dump_input E param s)))
                      \<lparr>status := RED_BKZ_LOOPS_LIMIT\<rparr>))"
  by (auto simp: bkz_def max_time_test_def setStatus_def Let_def RED_BKZ_LOOPS_LIMIT_def
      RED_BKZ_TIME_LIMIT_def RED_SUCCESS_def split: prod.splits)

theorem bkz_budget_exhausted_witness:
  "flag_set (flags P_no_loops) BKZ_MAX_LOOPS \<and> maxLoops P_no_loops \<le> 0
   \<and> bkz_loop (Suc 0) E_plain P_no_loops 0 0 (BKZAutoAbort_new E_plain 2 0) s_plain =
       Inr (Continue RED_BKZ_LOOPS_LIMIT, s_plain)
   \<and> \<not> (flag_set (flags P_no_time) BKZ_MAX_LOOPS \<and> maxLoops P_no_time \<le> 0)
   \<and> flag_set (flags P_no_time) BKZ_MAX_TIME
   \<and> elapsed_ge E_plain (fst (cputime E_plain s_plain) - cputimeStart s_plain) (maxTime P_no_time)
   \<and> bkz_loop (Suc 0) E_plain P_no_time 0 0 (BKZAutoAbort_new E_plain 2 0) s_plain =
       Inr (Continue RED_BKZ_TIME_LIMIT, snd (cputime E_plain s_plain))
   \<and> 2 \<le> blockSize P_no_loops
   \<and> bkz_loop (Suc 0) E_plain P_no_loops 0 0
        (BKZAutoAbort_new E_plain (numRows (bkz_dump_input E_plain P_no_loops s_plain)) 0)
        (bkz_begin E_plain (bkz_dump_input E_plain P_no_loops s_plain)) =
       Inr (Continue RED_BKZ_LOOPS_LIMIT, bkz_begin E_plain (bkz_dump_input E_plain P_no_loops s_plain))
   \<and> bkz (Suc 0) E_plain P_no_loops s_plain =
       Inr (False, (bkz_dump_output E_plain P_no_loops
                      (bkz_begin E_plain (bkz_dump_input E_plain P_no_loops s_plain)))
                     \<lparr>status := RED_BKZ_LOOPS_LIMIT\<rparr>)"
  using bkz_budget_exhausted [of P_no_loops 0 0 E_plain 0 "BKZAutoAbort_new E_plain 2 0" s_plain
      "Suc 0" s_plain RED_BKZ_LOOPS_LIMIT "bkz_begin E_plain (bkz_dump_input E_plain P_no_loops s_plain)"]
    bkz_budget_exhausted [of P_no_time 0 0 E_plain 0 "BKZAutoAbort_new E_plain 2 0" s_plain]
  by (simp add: P_no_loops_def P_no_time_def E_plain_def s_plain_def flag_set_def cputime_def
      BKZ_MAX_LOOPS_def BKZ_MAX_TIME_def Let_def)


text \<open>
  C1, as the specification has it, fails: with BKZ_MAX_LOOPS set and \<open>maxLoops = 0\<close>, \<^verbatim>\<open>bkz\<close>
  records RED_BKZ_LOOPS_LIMIT and returns false.
\<close>

theorem bkz_loops_cap_zero:
  "flag_set (flags P_no_loops) BKZ_MAX_LOOPS \<and> maxLoops P_no_loops = 0
   \<and> bkz 1 E_plain P_no_loops s_plain =
       Inr (False, s_plain\<lparr>status := RED_BKZ_LOOPS_LIMIT, cputimeStart := 1,
                          calls := [C_cputime, C_discoverAllRows]\<rparr>)"
  by (simp add: bkz_def bkz_dump_input_def bkz_dump_output_def bkz_begin_def cputime_def
      m_discoverAllRows_def setStatus_def P_no_loops_def E_plain_def s_plain_def flag_set_def
      BKZ_MAX_LOOPS_def BKZ_DUMP_GSO_def RED_BKZ_LOOPS_LIMIT_def RED_SUCCESS_def Let_def)


subsection \<open>Steps that only call collaborators other than the enumeration\<close>

lemma quiet_refl [simp]: "quiet s s"
  by (simp add: quiet_def)

lemma quiet_trans: "quiet s s1 \<Longrightarrow> quiet s1 s2 \<Longrightarrow> quiet s s2"
  by (auto simp: quiet_def)

lemma quiet_prims [simp]:
  "quiet s s1 \<Longrightarrow> quiet s (m_updateGSORow i s1)"
  "quiet s s1 \<Longrightarrow> quiet s (m_discoverAllRows s1)"
  "quiet s s1 \<Longrightarrow> quiet s (snd (m_getRExp E i j s1))"
  "quiet s s1 \<Longrightarrow> quiet s (m_createRow s1)"
  "quiet s s1 \<Longrightarrow> quiet s (m_removeLastRow s1)"
  "quiet s s1 \<Longrightarrow> quiet s (m_moveRow a b s1)"
  "quiet s s1 \<Longrightarrow> quiet s (m_rowOpBegin a b s1)"
  "quiet s s1 \<Longrightarrow> quiet s (m_rowOpEnd a b s1)"
  "quiet s s1 \<Longrightarrow> quiet s (m_row_addmul a b x s1)"
  "quiet s s1 \<Longrightarrow> quiet s (snd (lllObj_lll E lo st hi s1))"
  "quiet s s1 \<Longrightarrow> quiet s (snd (lllObj_sizeReduction E lo hi s1))"
  "quiet s s1 \<Longrightarrow> quiet s (snd (cputime E s1))"
  "quiet s s1 \<Longrightarrow> quiet s (s1\<lparr>cputimeStart := t\<rparr>)"
  "quiet s s1 \<Longrightarrow> quiet s (s1\<lparr>maxDist := y\<rparr>)"
  "quiet s s1 \<Longrightarrow> quiet s (s1\<lparr>deltaMaxDist := y\<rparr>)"
  "quiet s s1 \<Longrightarrow> quiet s (s1\<lparr>solCoord := ys\<rparr>)"
  "quiet s s1 \<Longrightarrow> quiet s (s1\<lparr>calls := calls s1 @ [C_dump_open filename app]\<rparr>)"
  by (auto simp: quiet_def m_updateGSORow_def m_discoverAllRows_def m_getRExp_def
      m_createRow_def m_removeLastRow_def m_moveRow_def m_rowOpBegin_def m_rowOpEnd_def
      m_row_addmul_def lllObj_lll_def lllObj_sizeReduction_def cputime_def Let_def
      case_prod_beta)

lemma quiet_getCurrentSlope_rows [simp]:
  "quiet s s1 \<Longrightarrow> quiet s (snd (getCurrentSlope_rows E i stopRow x s1))"
proof (induction E i stopRow x s1 rule: getCurrentSlope_rows.induct)
  case (1 E i stopRow x s1)
  show ?case
  proof (cases "i < stopRow")
    case False
    then show ?thesis using "1.prems" by (subst getCurrentSlope_rows.simps) simp
  next
    case True
    show ?thesis
      using True "1.IH" [OF True refl refl prod.collapse] "1.prems"
      by (subst getCurrentSlope_rows.simps) (simp add: case_prod_beta Let_def)
  qed
qed

lemma quiet_getCurrentSlope [simp]:
  "quiet s s1 \<Longrightarrow> quiet s (snd (getCurrentSlope E startRow stopRow s1))"
  by (simp add: getCurrentSlope_def case_prod_beta)

lemma quiet_testAbort [simp]:
  "quiet s s1 \<Longrightarrow> quiet s (snd (snd (testAbort E scale maxNoDec a s1)))"
  by (simp add: testAbort_def Let_def case_prod_beta)

lemma quiet_max_time_test [simp]:
  "quiet s s1 \<Longrightarrow> quiet s (snd (max_time_test E par start s1))"
  by (simp add: max_time_test_def Let_def case_prod_beta)

lemma quiet_dumpGSO_rows [simp]: "quiet s s1 \<Longrightarrow> quiet s (dumpGSO_rows E i s1)"
proof (induction E i s1 rule: dumpGSO_rows.induct)
  case (1 E i s1)
  show ?case
  proof (cases "i < numRows s1")
    case False
    then show ?thesis using "1.prems" by (subst dumpGSO_rows.simps) simp
  next
    case True
    show ?thesis
      using True "1.IH" [OF True refl refl prod.collapse] "1.prems"
      by (subst dumpGSO_rows.simps) (simp add: case_prod_beta Let_def)
  qed
qed

lemma quiet_dumpGSO [simp]: "quiet s s1 \<Longrightarrow> quiet s (dumpGSO E filename app s1)"
  by (simp add: dumpGSO_def)

lemma quiet_bkzLoop_end [simp]:
  "quiet s s1 \<Longrightarrow> quiet s (bkzLoop_end E loop par minRow maxRow s1)"
  by (simp add: bkzLoop_end_def Let_def case_prod_beta)

lemma quiet_bkz_begin [simp]: "quiet s s1 \<Longrightarrow> quiet s (bkz_begin E s1)"
  by (simp add: bkz_begin_def Let_def case_prod_beta)

lemma quiet_bkz_dump_input [simp]: "quiet s s1 \<Longrightarrow> quiet s (bkz_dump_input E param s1)"
  by (simp add: bkz_dump_input_def)

lemma quiet_bkz_dump_output [simp]: "quiet s s1 \<Longrightarrow> quiet s (bkz_dump_output E param s1)"
  by (simp add: bkz_dump_output_def Let_def case_prod_beta)

lemma quiet_addmul_loop:
  "quiet s s1 \<Longrightarrow> addmul_loop sol d kappa blockSize' i s1 = Inr s' \<Longrightarrow> quiet s s'"
proof (induction sol d kappa blockSize' i s1 rule: addmul_loop.induct)
  case (1 sol d kappa bs i s1)
  show ?case
  proof (cases "i < bs")
    case False
    then show ?thesis using "1.prems" by (subst (asm) addmul_loop.simps) simp
  next
    case True
    show ?thesis
    proof (cases "i < 0 \<or> int (length sol) \<le> i")
      case oor: True
      then show ?thesis using True "1.prems" by (subst (asm) addmul_loop.simps) simp
    next
      case inr: False
      have "addmul_loop sol d kappa bs (i + 1) (m_row_addmul d (kappa + i) (sol ! nat i) s1) = Inr s'"
        using True inr "1.prems"(2) by (subst (asm) addmul_loop.simps) simp
      then show ?thesis
        using "1.IH" [OF True inr] "1.prems"(1) by simp
    qed
  qed
qed


subsection \<open>The shape of the parts of svpReduction\<close>

lemma svp_lll_Return:
  "svp_lll E kappa blockSize' par clean s = Return (r, c, s') \<Longrightarrow>
   \<exists>sq. quiet s sq \<and> r = fst (setStatus (lll_status sq) sq) \<and> s' = snd (setStatus (lll_status sq) sq)"
  by (auto simp: svp_lll_def Let_def case_prod_beta split: if_splits
      intro!: exI [of _ "snd (lllObj_lll E (if flag_set (flags par) BKZ_BOUNDED_LLL then kappa else 0) kappa (kappa + blockSize') s)"])

lemma svp_lll_Continue:
  "svp_lll E kappa blockSize' par clean s = Continue (c, s1) \<Longrightarrow> quiet s s1"
  by (auto simp: svp_lll_def Let_def case_prod_beta split: if_splits)

lemma insert_basis_row_shape:
  "insert_basis_row E kappa iVector clean s = Inr (r, c, s') \<Longrightarrow>
   \<exists>sq. quiet s sq \<and> ((r \<and> s' = sq)
           \<or> (r = fst (setStatus (lll_status sq) sq) \<and> s' = snd (setStatus (lll_status sq) sq)))"
  by (auto simp: insert_basis_row_def Let_def case_prod_beta split: if_splits
      intro!: exI [of _ "snd (lllObj_sizeReduction E kappa (kappa + 1) (m_moveRow (kappa + iVector) kappa s))"])

lemma insert_general_shape:
  assumes "insert_general E kappa blockSize' clean s = Inr (r, c, s')"
  shows "\<exists>sq. quiet s sq \<and> ((r \<and> s' = sq)
           \<or> (r = fst (setStatus (lll_status sq) sq) \<and> s' = snd (setStatus (lll_status sq) sq)))"
proof -
  let ?d = "m_d s"
  let ?s2 = "m_rowOpBegin ?d (?d + 1) (m_createRow s)"
  obtain s3 where a: "addmul_loop (solCoord s) ?d kappa blockSize' 0 ?s2 = Inr s3"
    using assms by (cases "addmul_loop (solCoord s) ?d kappa blockSize' 0 ?s2")
      (simp_all add: insert_general_def Let_def)
  have q3: "quiet s s3" using quiet_addmul_loop [OF _ a] by simp
  let ?s6 = "snd (lllObj_lll E kappa kappa (kappa + blockSize' + 1) (m_moveRow ?d kappa (m_rowOpEnd ?d (?d + 1) s3)))"
  have q6: "quiet s ?s6" using q3 by simp
  let ?s8 = "m_removeLastRow (m_moveRow (kappa + blockSize') ?d ?s6)"
  have q8: "quiet s ?s8" using q6 by simp
  show ?thesis
  proof (cases "fst (lllObj_lll E kappa kappa (kappa + blockSize' + 1) (m_moveRow ?d kappa (m_rowOpEnd ?d (?d + 1) s3)))")
    case False
    then have "r = fst (setStatus (lll_status ?s6) ?s6) \<and> s' = snd (setStatus (lll_status ?s6) ?s6)"
      using assms a by (auto simp: insert_general_def Let_def case_prod_beta)
    then show ?thesis using q6 by blast
  next
    case True
    then have "r \<and> s' = ?s8"
      using assms a by (auto simp: insert_general_def Let_def case_prod_beta split: if_splits)
    then show ?thesis using q8 by blast
  qed
qed

lemma svp_insert_shape:
  assumes "svp_insert E kappa blockSize' clean s = Inr (r, c, s')"
  shows "(solCoord s = [] \<and> \<not> r \<and> s' = s\<lparr>status := RED_ENUM_FAILURE\<rparr>)
       \<or> (solCoord s \<noteq> [] \<and> (\<exists>sq. quiet s sq \<and> ((r \<and> s' = sq)
           \<or> (r = fst (setStatus (lll_status sq) sq) \<and> s' = snd (setStatus (lll_status sq) sq)))))"
proof (cases "solCoord s = []")
  case True
  then show ?thesis using assms
    by (auto simp: svp_insert_def setStatus_def Let_def RED_ENUM_FAILURE_def RED_SUCCESS_def)
next
  case False
  have "\<exists>sq. quiet s sq \<and> ((r \<and> s' = sq)
           \<or> (r = fst (setStatus (lll_status sq) sq) \<and> s' = snd (setStatus (lll_status sq) sq)))"
  proof (cases "classify_loop E (solCoord s) blockSize' 0 0 (- 1)")
    case (Inl e)
    then show ?thesis using assms False by (simp add: svp_insert_def)
  next
    case (Inr p)
    obtain nz iv where p: "p = (nz, iv)" by (cases p)
    consider (skip) "r" "s' = s"
      | (row) "insert_basis_row E kappa iv clean s = Inr (r, c, s')"
      | (gen) "insert_general E kappa blockSize' clean s = Inr (r, c, s')"
      using assms False Inr p by (auto simp: svp_insert_def split: if_splits)
    then show ?thesis
    proof cases
      case skip
      then show ?thesis using quiet_refl by blast
    next
      case row
      then show ?thesis by (rule insert_basis_row_shape)
    next
      case gen
      then show ?thesis by (rule insert_general_shape)
    qed
  qed
  with False show ?thesis by simp
qed


subsection \<open>Step invariants hold of the whole driver\<close>

lemma step_invariant_quiet:
  assumes "step_invariant Inv" and "quiet s s'"
  shows "Inv E s True s'"
  using assms(1) [unfolded step_invariant_def, THEN conjunct1, rule_format, OF assms(2)] .

lemma step_invariant_comp:
  assumes "step_invariant Inv" and "Inv E s True s1" and "Inv E s1 r s2"
  shows "Inv E s r s2"
  using assms(1) [unfolded step_invariant_def, THEN conjunct2, THEN conjunct1, rule_format,
      OF assms(2) assms(3)] .

lemma step_invariant_setStatus:
  assumes "step_invariant Inv"
  shows "Inv E s (fst (setStatus x s)) (snd (setStatus x s))"
  using assms [unfolded step_invariant_def, THEN conjunct2, THEN conjunct2, THEN conjunct1,
      rule_format] .

lemma step_invariant_enum:
  assumes "step_invariant Inv"
    and "svp_enum_insert E param kappa blockSize' par clean s = Inr (r, c, s')"
  shows "Inv E s r s'"
  using assms(1) [unfolded step_invariant_def, THEN conjunct2, THEN conjunct2, THEN conjunct2,
      rule_format, OF assms(2)] .

lemma driver_invariant:
  fixes Inv :: "('f::{zero,one,uminus,ord,times}) env \<Rightarrow> 'f bkz_state \<Rightarrow> bool \<Rightarrow> 'f bkz_state \<Rightarrow> bool"
  assumes inv: "step_invariant Inv"
  shows "svpReduction n E param kappa blockSize' par clean s = Inr (r, c, s') \<Longrightarrow> Inv E s r s'"
    and "preproc_loop n E param kappa blockSize' par preproc i autoAbort cputimeStart2
           dummyKappaMax clean s = Inr (r, c, s') \<Longrightarrow> Inv E s r s'"
    and "bkzLoop_from n E param loop kappaMax par minRow maxRow kappa clean s = Inr (r, c, km', s')
           \<Longrightarrow> Inv E s r s'"
proof (induction n E param kappa blockSize' par clean s
    and n E param kappa blockSize' par preproc i autoAbort cputimeStart2 dummyKappaMax clean s
    and n E param loop kappaMax par minRow maxRow kappa clean s
    arbitrary: r c s' and r c s' and r c km' s'
    rule: svpReduction_preproc_loop_bkzLoop_from.induct)
  case (1 n E param kappa bs par clean s)
  note q = step_invariant_quiet [OF inv] and comp = step_invariant_comp [OF inv]
    and st = step_invariant_setStatus [OF inv] and en = step_invariant_enum [OF inv]
  have after: "\<And>sa sb r. quiet sa sb \<Longrightarrow> Inv E sb r s' \<Longrightarrow> Inv E sa r s'"
    using q comp by blast
  show ?case
  proof (cases "svp_lll E kappa bs par clean s")
    case (Return x)
    then have "svp_lll E kappa bs par clean s = Return (r, c, s')"
      using "1.prems" by (subst (asm) svpReduction.simps) simp
    then obtain sq where "quiet s sq" "r = fst (setStatus (lll_status sq) sq)"
        "s' = snd (setStatus (lll_status sq) sq)"
      using svp_lll_Return by blast
    then have "Inv E sq r s'" using st by simp
    then show ?thesis using after [OF \<open>quiet s sq\<close>] by simp
  next
    case (Continue x)
    obtain clean1 s1 where x: "x = (clean1, s1)" by (cases x)
    have q1: "quiet s s1" using Continue x svp_lll_Continue by blast
    show ?thesis
    proof (cases "preproc_enabled par bs")
      case False
      then have "svp_enum_insert E param kappa bs par clean1 s1 = Inr (r, c, s')"
        using "1.prems" Continue x by (subst (asm) svpReduction.simps) simp
      then have "Inv E s1 r s'" by (rule en)
      then show ?thesis using after [OF q1] by simp
    next
      case True
      obtain t s2 where ct: "cputime E s1 = (t, s2)" by (cases "cputime E s1")
      have "quiet s1 (snd (cputime E s1))" by simp
      then have q2: "quiet s s2" using ct q1 quiet_trans by fastforce
      let ?inner = "preproc_loop n E param kappa bs par (the (preprocessing par)) 0
                      (BKZAutoAbort_new E (kappa + bs) kappa) t (numRows s1) clean1 s2"
      have unf: "svpReduction n E param kappa bs par clean s =
          (case ?inner of Inl e \<Rightarrow> Inl e
           | Inr (ok, clean2, s3) \<Rightarrow> if \<not> ok then Inr (False, clean2, s3)
               else svp_enum_insert E param kappa bs par clean2 s3)"
        using Continue x True ct by (subst svpReduction.simps) (simp add: Let_def)
      show ?thesis
      proof (cases ?inner)
        case (Inl e)
        then show ?thesis using "1.prems" unf by simp
      next
        case (Inr y)
        obtain ok clean2 s3 where y: "y = (ok, clean2, s3)" by (cases y)
        have ih: "Inv E s2 ok s3"
          using "1.IH" [OF Continue x [symmetric] True refl refl ct [symmetric] refl] Inr y
          by simp
        show ?thesis
        proof (cases ok)
          case False
          then have "r = False" "s' = s3" using "1.prems" unf Inr y by simp_all
          then have "Inv E s2 r s'" using ih False by simp
          then show ?thesis using after [OF q2] by simp
        next
          case True
          then have "svp_enum_insert E param kappa bs par clean2 s3 = Inr (r, c, s')"
            using "1.prems" unf Inr y by simp
          then have "Inv E s3 r s'" by (rule en)
          moreover have "Inv E s2 True s3" using ih True by simp
          ultimately have "Inv E s2 r s'" using comp by blast
          then show ?thesis using after [OF q2] by simp
        qed
      qed
    qed
  qed
next
  case (2 E param kappa bs par preproc i autoAbort cputimeStart2 dummyKappaMax clean s)
  then show ?case by simp
next
  case (3 n E param kappa bs par preproc i autoAbort cputimeStart2 dummyKappaMax clean s)
  note q = step_invariant_quiet [OF inv] and comp = step_invariant_comp [OF inv]
    and st = step_invariant_setStatus [OF inv] and en = step_invariant_enum [OF inv]
  have after: "\<And>sa sb r. quiet sa sb \<Longrightarrow> Inv E sb r s' \<Longrightarrow> Inv E sa r s'"
    using q comp by blast
  show ?case
  proof (cases "flag_set (flags par) BKZ_MAX_LOOPS \<and> maxLoops par \<le> i")
    case True
    then have "r = True" "s' = s" using "3.prems" by auto
    then show ?thesis using q by simp
  next
    case nl: False
    obtain timeUp s1 where mt: "max_time_test E par cputimeStart2 s = (timeUp, s1)"
      by (cases "max_time_test E par cputimeStart2 s")
    have "quiet s (snd (max_time_test E par cputimeStart2 s))" by simp
    then have q1: "quiet s s1" using mt by simp
    show ?thesis
    proof (cases timeUp)
      case True
      then have "r = True" "s' = s1" using "3.prems" nl mt by auto
      then show ?thesis using q q1 by simp
    next
      case nt: False
      obtain abort aa1 s2 where ta:
        "testAbort E (autoAbort_scale par) (autoAbort_maxNoDec par) autoAbort s1 = (abort, aa1, s2)"
        by (cases "testAbort E (autoAbort_scale par) (autoAbort_maxNoDec par) autoAbort s1")
      have "quiet s (snd (snd (testAbort E (autoAbort_scale par) (autoAbort_maxNoDec par) autoAbort s1)))"
        using q1 by simp
      then have q2: "quiet s s2" using ta by simp
      show ?thesis
      proof (cases abort)
        case True
        then have "r = True" "s' = s2" using "3.prems" nl mt nt ta by auto
        then show ?thesis using q q2 by simp
      next
        case na: False
        let ?tour = "bkzLoop_from n E param i dummyKappaMax preproc kappa (kappa + bs) kappa True s2"
        show ?thesis
        proof (cases ?tour)
          case (Inl e)
          then show ?thesis using "3.prems" nl mt nt ta na by simp
        next
          case (Inr y)
          obtain ok clean2 km1 s3 where y: "y = (ok, clean2, km1, s3)" by (cases y)
          have ih1: "Inv E s2 ok s3"
            using "3.IH"(1) [OF nl mt [symmetric] refl nt ta [symmetric] refl refl na] Inr y
            by simp
          show ?thesis
          proof (cases ok)
            case False
            then have "r = False" "s' = s3" using "3.prems" nl mt nt ta na Inr y by auto
            then have "Inv E s2 r s'" using ih1 False by simp
            then show ?thesis using after [OF q2] by simp
          next
            case ok: True
            show ?thesis
            proof (cases clean2)
              case True
              then have "r = True" "s' = s3" using "3.prems" nl mt nt ta na Inr y ok by auto
              then have "Inv E s2 r s'" using ih1 ok by simp
              then show ?thesis using after [OF q2] by simp
            next
              case False
              then have rec: "preproc_loop n E param kappa bs par preproc (i + 1) aa1
                    cputimeStart2 km1 clean2 s3 = Inr (r, c, s')"
                using "3.prems" nl mt nt ta na Inr y ok by simp
              have tour: "?tour = Inr (ok, clean2, km1, s3)" using Inr y by simp
              have nnok: "\<not> \<not> ok" using ok by simp
              have "Inv E s3 r s'"
                using "3.IH"(2) [OF nl mt [symmetric] refl nt ta [symmetric] refl refl na
                    tour refl refl refl nnok False rec] .
              moreover have "Inv E s2 True s3" using ih1 ok by simp
              ultimately have "Inv E s2 r s'" using comp by blast
              then show ?thesis using after [OF q2] by simp
            qed
          qed
        qed
      qed
    qed
  qed
next
  case (4 n E param loop kappaMax par minRow maxRow kappa clean s)
  note q = step_invariant_quiet [OF inv] and comp = step_invariant_comp [OF inv]
    and st = step_invariant_setStatus [OF inv] and en = step_invariant_enum [OF inv]
  show ?case
  proof (cases "kappa < maxRow - 1")
    case False
    then have "r = True" "s' = bkzLoop_end E loop par minRow maxRow s"
      using "4.prems" by (subst (asm) bkzLoop_from.simps, simp)+
    then show ?thesis using q by simp
  next
    case True
    let ?bs = "min (blockSize par) (maxRow - kappa)"
    let ?block = "svpReduction n E param kappa ?bs par clean s"
    let ?km = "if flag_set (flags par) BKZ_VERBOSE \<and> kappaMax < kappa \<and> fst (snd (projr ?block))
               then kappa else kappaMax"
    show ?thesis
    proof (cases ?block)
      case (Inl e)
      then show ?thesis using "4.prems" True by (subst (asm) bkzLoop_from.simps) (simp add: Let_def)
    next
      case (Inr y)
      obtain ok clean1 s1 where y: "y = (ok, clean1, s1)" by (cases y)
      have ih1: "Inv E s ok s1" using "4.IH"(1) [OF True refl] Inr y by simp
      show ?thesis
      proof (cases ok)
        case False
        then have "r = False \<and> s' = s1"
          using "4.prems" True Inr y by (subst (asm) bkzLoop_from.simps) (simp add: Let_def)
        then show ?thesis using ih1 False by simp
      next
        case ok: True
        have rec: "bkzLoop_from n E param loop
                (if flag_set (flags par) BKZ_VERBOSE \<and> kappaMax < kappa \<and> clean1
                 then kappa else kappaMax) par minRow maxRow (kappa + 1) clean1 s1 = Inr (r, c, km', s')"
          using "4.prems" True Inr y ok by (subst (asm) bkzLoop_from.simps) (simp add: Let_def)
        have block: "?block = Inr (ok, clean1, s1)" using Inr y by simp
        have nnok: "\<not> \<not> ok" using ok by simp
        have "Inv E s1 r s'"
          using "4.IH"(2) [OF True refl block refl refl nnok rec] .
        moreover have "Inv E s True s1" using ih1 ok by simp
        ultimately show ?thesis using comp by blast
      qed
    qed
  qed
qed


lemma bkz_loop_invariant:
  fixes Inv :: "('f::{zero,one,uminus,ord,times}) env \<Rightarrow> 'f bkz_state \<Rightarrow> bool \<Rightarrow> 'f bkz_state \<Rightarrow> bool"
  assumes inv: "step_invariant Inv"
  shows "bkz_loop n E param iLoop kappaMax autoAbort s = Inr (fl, s') \<Longrightarrow>
         Inv E s (case fl of Return b \<Rightarrow> b | Continue x \<Rightarrow> True) s' \<and> fl \<noteq> Return True"
proof (induction n arbitrary: iLoop kappaMax autoAbort s)
  case 0
  then show ?case by simp
next
  case (Suc n)
  note q = step_invariant_quiet [OF inv] and comp = step_invariant_comp [OF inv]
  have after: "\<And>sa sb r. quiet sa sb \<Longrightarrow> Inv E sb r s' \<Longrightarrow> Inv E sa r s'"
    using q comp by blast
  show ?case
  proof (cases "flag_set (flags param) BKZ_MAX_LOOPS \<and> maxLoops param \<le> iLoop")
    case True
    then have "fl = Continue RED_BKZ_LOOPS_LIMIT" "s' = s" using Suc.prems by auto
    then show ?thesis using q by simp
  next
    case nl: False
    obtain timeUp s1 where mt: "max_time_test E param (cputimeStart s) s = (timeUp, s1)"
      by (cases "max_time_test E param (cputimeStart s) s")
    have "quiet s (snd (max_time_test E param (cputimeStart s) s))" by simp
    then have q1: "quiet s s1" using mt by simp
    show ?thesis
    proof (cases timeUp)
      case True
      then have "fl = Continue RED_BKZ_TIME_LIMIT" "s' = s1" using Suc.prems nl mt by auto
      then show ?thesis using q q1 by simp
    next
      case nt: False
      obtain abort aa1 s2 where ta:
        "(if flag_set (flags param) BKZ_AUTO_ABORT
          then testAbort E (autoAbort_scale param) (autoAbort_maxNoDec param) autoAbort s1
          else (False, autoAbort, s1)) = (abort, aa1, s2)"
        by (cases "if flag_set (flags param) BKZ_AUTO_ABORT
          then testAbort E (autoAbort_scale param) (autoAbort_maxNoDec param) autoAbort s1
          else (False, autoAbort, s1)")
      have "quiet s (snd (snd (if flag_set (flags param) BKZ_AUTO_ABORT
          then testAbort E (autoAbort_scale param) (autoAbort_maxNoDec param) autoAbort s1
          else (False, autoAbort, s1))))"
        using q1 by simp
      then have q2: "quiet s s2" using ta by simp
      show ?thesis
      proof (cases abort)
        case True
        then have "fl = Continue RED_SUCCESS" "s' = s2" using Suc.prems nl mt nt ta by auto
        then show ?thesis using q q2 by simp
      next
        case na: False
        let ?tour = "bkzLoop n E param iLoop kappaMax param 0 (numRows s2) True s2"
        show ?thesis
        proof (cases ?tour)
          case (Inl e)
          then show ?thesis using Suc.prems nl mt nt ta na by simp
        next
          case (Inr y)
          obtain ok clean km1 s3 where y: "y = (ok, clean, km1, s3)" by (cases y)
          have ih1: "Inv E s2 ok s3"
            using driver_invariant(3) [OF inv] Inr y
            unfolding bkzLoop_def by blast
          show ?thesis
          proof (cases ok)
            case False
            then have "fl = Return False" "s' = s3" using Suc.prems nl mt nt ta na Inr y by auto
            moreover have "Inv E s2 False s'" using ih1 False \<open>s' = s3\<close> by simp
            ultimately show ?thesis using after [OF q2] by simp
          next
            case ok: True
            have i23: "Inv E s2 True s3" using ih1 ok by simp
            show ?thesis
            proof (cases "clean \<or> blockSize param \<ge> numRows s3")
              case True
              then have "fl = Continue RED_SUCCESS" "s' = s3"
                using Suc.prems nl mt nt ta na Inr y ok by auto
              then show ?thesis using i23 after [OF q2] by simp
            next
              case False
              then have rec: "bkz_loop n E param (iLoop + 1) km1 aa1 s3 = Inr (fl, s')"
                using Suc.prems nl mt nt ta na Inr y ok by simp
              have r: "Inv E s3 (case fl of Return b \<Rightarrow> b | Continue x \<Rightarrow> True) s' \<and> fl \<noteq> Return True"
                using Suc.IH [OF rec] .
              then have "Inv E s2 (case fl of Return b \<Rightarrow> b | Continue x \<Rightarrow> True) s'"
                using i23 comp by blast
              then show ?thesis using r after [OF q2] by simp
            qed
          qed
        qed
      qed
    qed
  qed
qed

subsection \<open>The value returned and the status\<close>

lemma status_svp_enumerate [simp]:
  "status (svp_enumerate E param kappa blockSize' par s) = status s"
  by (simp add: svp_enumerate_def m_getRExp_def Enumeration_enumerate_def Let_def case_prod_beta)

lemma status_agrees_quiet: "quiet s s' \<Longrightarrow> status_agrees E s True s'"
  by (simp add: status_agrees_def quiet_def)

lemma status_agrees_comp:
  "status_agrees E s True s1 \<Longrightarrow> status_agrees E s1 r s2 \<Longrightarrow> status_agrees E s r s2"
  by (auto simp: status_agrees_def split: if_splits)

lemma status_agrees_setStatus: "status_agrees E s (fst (setStatus x s)) (snd (setStatus x s))"
  by (simp add: status_agrees_def setStatus_def Let_def)

lemma status_agrees_enum:
  assumes "svp_enum_insert E param kappa blockSize' par clean s = Inr (r, c, s')"
  shows "status_agrees E s r s'"
proof -
  let ?se = "svp_enumerate E param kappa blockSize' par s"
  have "svp_insert E kappa blockSize' clean ?se = Inr (r, c, s')"
    using assms by (simp add: svp_enum_insert_def)
  from svp_insert_shape [OF this] show ?thesis
    by (auto simp: status_agrees_def quiet_def setStatus_def Let_def RED_ENUM_FAILURE_def
        RED_SUCCESS_def)
qed

lemma status_agrees_invariant: "step_invariant status_agrees"
  unfolding step_invariant_def
proof (intro conjI allI impI)
  fix E :: "'a env" and s s' :: "'a bkz_state"
  assume "quiet s s'"
  then show "status_agrees E s True s'" by (rule status_agrees_quiet)
next
  fix E :: "'a env" and s s1 s2 :: "'a bkz_state" and r
  assume "status_agrees E s True s1" and "status_agrees E s1 r s2"
  then show "status_agrees E s r s2" by (rule status_agrees_comp)
next
  fix E :: "'a env" and s :: "'a bkz_state" and x
  show "status_agrees E s (fst (setStatus x s)) (snd (setStatus x s))"
    by (rule status_agrees_setStatus)
next
  fix E :: "'a env" and param par :: "'a BKZParam" and kappa blockSize' clean
    and s s' :: "'a bkz_state" and r c
  assume "svp_enum_insert E param kappa blockSize' par clean s = Inr (r, c, s')"
  then show "status_agrees E s r s'" by (rule status_agrees_enum)
qed

text \<open>
  C10: the status is RED_SUCCESS after construction, and in a run that starts with the
  status RED_SUCCESS, as a call of \<^verbatim>\<open>bkz\<close> on a new object and every call inside it does, the
  boolean that \<^verbatim>\<open>svpReduction\<close>, \<^verbatim>\<open>bkzLoop\<close> and \<^verbatim>\<open>bkz\<close> return is \<^verbatim>\<open>status == RED_SUCCESS\<close> at the
  return: every false comes with a status other than RED_SUCCESS, which only \<^verbatim>\<open>setStatus\<close>
  can have written, since the calls on the collaborators keep the status.
\<close>

theorem status_matches_result:
  assumes "status s = RED_SUCCESS"
  shows "(svpReduction n E param kappa blockSize' par clean s = Inr (r, c, s')
            \<longrightarrow> r = (status s' = RED_SUCCESS))
       \<and> (bkzLoop n E param loop kappaMax par minRow maxRow clean s = Inr (r, c, km', s')
            \<longrightarrow> r = (status s' = RED_SUCCESS))
       \<and> (bkz n E param s = Inr (r, s') \<longrightarrow> r = (status s' = RED_SUCCESS))
       \<and> status (BKZReduction_new E s0) = RED_SUCCESS"
proof (intro conjI impI)
  assume "svpReduction n E param kappa blockSize' par clean s = Inr (r, c, s')"
  then have "status_agrees E s r s'"
    by (rule driver_invariant(1) [OF status_agrees_invariant])
  then show "r = (status s' = RED_SUCCESS)" using assms by (simp add: status_agrees_def)
next
  assume "bkzLoop n E param loop kappaMax par minRow maxRow clean s = Inr (r, c, km', s')"
  then have "status_agrees E s r s'"
    unfolding bkzLoop_def
    by (rule driver_invariant(3) [OF status_agrees_invariant])
  then show "r = (status s' = RED_SUCCESS)" using assms by (simp add: status_agrees_def)
next
  assume run: "bkz n E param s = Inr (r, s')"
  let ?s0 = "bkz_dump_input E param s"
  have s0: "status ?s0 = RED_SUCCESS"
    using quiet_bkz_dump_input [OF quiet_refl, of s E param] assms by (simp add: quiet_def)
  show "r = (status s' = RED_SUCCESS)"
  proof (cases "blockSize param < 2")
    case True
    then show ?thesis using run by (auto simp: bkz_def setStatus_def Let_def)
  next
    case False
    let ?sb = "bkz_begin E ?s0"
    have sb: "status ?sb = RED_SUCCESS"
      using quiet_bkz_begin [OF quiet_refl, of ?s0 E] s0 by (simp add: quiet_def)
    let ?loop = "bkz_loop n E param 0 0 (BKZAutoAbort_new E (numRows ?s0) 0) ?sb"
    show ?thesis
    proof (cases ?loop)
      case (Inl e)
      then show ?thesis using run False by (simp add: bkz_def Let_def)
    next
      case (Inr y)
      obtain fl s4 where y: "y = (fl, s4)" by (cases y)
      have inv: "status_agrees E ?sb (case fl of Return b \<Rightarrow> b | Continue x \<Rightarrow> True) s4 \<and> fl \<noteq> Return True"
        using bkz_loop_invariant [OF status_agrees_invariant] Inr y by blast
      show ?thesis
      proof (cases fl)
        case (Return b)
        then have "b = False" using inv by simp
        then show ?thesis
          using run False Inr y Return inv sb by (simp add: bkz_def Let_def status_agrees_def)
      next
        case (Continue x)
        then show ?thesis
          using run False Inr y by (auto simp: bkz_def Let_def setStatus_def)
      qed
    qed
  qed
next
  show "status (BKZReduction_new E s0) = RED_SUCCESS" by (simp add: BKZReduction_new_def)
qed


lemmas run_defs =
  svpReduction.simps bkz_def bkz_dump_input_def bkz_dump_output_def bkzLoop_def
  bkzLoop_from.simps bkzLoop_end_def bkz_begin_def BKZAutoAbort_new_def max_time_test_def
  svp_lll_def preproc_enabled_def svp_enum_insert_def svp_enumerate_def flag_set_def
  BKZ_BOUNDED_LLL_def BKZ_DUMP_GSO_def BKZ_MAX_LOOPS_def BKZ_MAX_TIME_def BKZ_AUTO_ABORT_def
  BKZ_VERBOSE_def lllObj_lll_def lllObj_sizeReduction_def m_getRExp_def
  Enumeration_enumerate_def cputime_def m_discoverAllRows_def svp_insert_cases
  nzVectors_of_def iVector_of_def FPLLL_DEBUG_CHECK_def insert_general_def
  insert_basis_row_def addmul_loop_eq m_createRow_def m_rowOpBegin_def m_rowOpEnd_def
  m_moveRow_def m_row_addmul_def m_removeLastRow_def setStatus_def RED_LLL_FAILURE_def
  RED_ENUM_FAILURE_def RED_SUCCESS_def Let_def

theorem status_matches_result_witness:
  "status s_plain = RED_SUCCESS
   \<and> (\<exists>c s'. svpReduction 0 E_plain P_plain 0 2 P_plain True s_plain = Inr (True, c, s')
          \<and> status s' = RED_SUCCESS)
   \<and> (\<exists>c km' s'. bkzLoop 0 E_plain P_plain 0 0 P_plain 0 2 True s_plain = Inr (True, c, km', s')
          \<and> status s' = RED_SUCCESS)
   \<and> (\<exists>s'. bkz 1 E_plain P_plain s_plain = Inr (True, s') \<and> status s' = RED_SUCCESS)
   \<and> (\<exists>s'. bkz 1 E_post_lll_fails P_plain s_plain = Inr (False, s') \<and> status s' \<noteq> RED_SUCCESS)
   \<and> status (BKZReduction_new E_plain s_plain) = RED_SUCCESS"
proof -
  have ok: "status s_plain = RED_SUCCESS" by (simp add: s_plain_def RED_SUCCESS_def)
  note all = status_matches_result [OF ok]
  have "\<exists>s'. svpReduction 0 E_plain P_plain 0 2 P_plain True s_plain = Inr (True, False, s')"
    by (simp add: run_defs E_plain_def P_plain_def s_plain_def)
  then obtain c1 s1 where
    r1: "svpReduction 0 E_plain P_plain 0 2 P_plain True s_plain = Inr (True, c1, s1)" by blast
  have "\<exists>s'. bkzLoop 0 E_plain P_plain 0 0 P_plain 0 2 True s_plain = Inr (True, False, 0, s')"
    by (simp add: run_defs E_plain_def P_plain_def s_plain_def)
  then obtain c2 km2 s2 where
    r2: "bkzLoop 0 E_plain P_plain 0 0 P_plain 0 2 True s_plain = Inr (True, c2, km2, s2)" by blast
  have "\<exists>s'. bkz 1 E_plain P_plain s_plain = Inr (True, s')"
    by (simp add: run_defs E_plain_def P_plain_def s_plain_def)
  then obtain s3 where r3: "bkz 1 E_plain P_plain s_plain = Inr (True, s3)" by blast
  have "\<exists>s'. bkz 1 E_post_lll_fails P_plain s_plain = Inr (False, s')"
    by (simp add: run_defs E_plain_def E_post_lll_fails_def P_plain_def s_plain_def)
  then obtain s4 where r4: "bkz 1 E_post_lll_fails P_plain s_plain = Inr (False, s4)" by blast
  have "status s1 = RED_SUCCESS"
    using all [THEN conjunct1, rule_format, OF r1] by simp
  moreover have "status s2 = RED_SUCCESS"
    using all [THEN conjunct2, THEN conjunct1, rule_format, OF r2] by simp
  moreover have "status s3 = RED_SUCCESS"
    using all [THEN conjunct2, THEN conjunct2, THEN conjunct1, rule_format, OF r3] by simp
  moreover have "status s4 \<noteq> RED_SUCCESS"
    using all [THEN conjunct2, THEN conjunct2, THEN conjunct1, rule_format, OF r4] by simp
  moreover have "status (BKZReduction_new E_plain s_plain) = RED_SUCCESS"
    using all [THEN conjunct2, THEN conjunct2, THEN conjunct2] .
  ultimately show ?thesis using ok r1 r2 r3 r4 by blast
qed

subsection \<open>A failed enumeration ends the run\<close>

lemma quiet_not_failed:
  assumes "list_all (\<lambda>c. \<not> is_enumerate c) ext" and "j < length ext"
  shows "\<not> enum_failed E (h @ take (Suc j) ext)"
proof -
  have "take (Suc j) ext = take j ext @ [ext ! j]"
    using assms(2) by (simp add: take_Suc_conv_app_nth)
  moreover have "\<not> is_enumerate (ext ! j)"
    using assms by (simp add: list_all_length)
  ultimately show ?thesis by (simp add: enum_failed_def)
qed

lemma enum_final_append:
  assumes c1: "calls s1 = calls s @ e1" and c2: "calls s' = calls s1 @ e2"
    and n1: "\<forall>j<length e1. \<not> enum_failed E (calls s @ take (Suc j) e1)"
    and f2: "\<forall>j<length e2. enum_failed E (calls s1 @ take (Suc j) e2)
               \<longrightarrow> Suc j = length e2 \<and> \<not> r \<and> status s' = RED_ENUM_FAILURE"
  shows "enum_failure_final E s r s'"
proof -
  have m: "\<forall>j<length (e1 @ e2). enum_failed E (calls s @ take (Suc j) (e1 @ e2))
             \<longrightarrow> Suc j = length (e1 @ e2) \<and> \<not> r \<and> status s' = RED_ENUM_FAILURE"
  proof (intro allI impI)
    fix j
    assume j: "j < length (e1 @ e2)"
      and f: "enum_failed E (calls s @ take (Suc j) (e1 @ e2))"
    show "Suc j = length (e1 @ e2) \<and> \<not> r \<and> status s' = RED_ENUM_FAILURE"
    proof (cases "j < length e1")
      case True
      then have "take (Suc j) (e1 @ e2) = take (Suc j) e1" by simp
      then show ?thesis using f n1 True by simp
    next
      case False
      define j2 where "j2 = j - length e1"
      have j2: "j2 < length e2" "j = length e1 + j2" using False j by (simp_all add: j2_def)
      have "take (Suc j) (e1 @ e2) = e1 @ take (Suc j2) e2" using j2 by simp
      then have "enum_failed E (calls s1 @ take (Suc j2) e2)" using f c1 by simp
      then show ?thesis using f2 j2 by auto
    qed
  qed
  have "calls s' = calls s @ (e1 @ e2)" using c1 c2 by simp
  then show ?thesis unfolding enum_failure_final_def using m by blast
qed

lemma enum_final_quiet:
  assumes "quiet s s'"
  shows "enum_failure_final E s r s'"
proof -
  obtain ext where e: "calls s' = calls s @ ext" "list_all (\<lambda>c. \<not> is_enumerate c) ext"
    using assms by (auto simp: quiet_def)
  show ?thesis
    unfolding enum_failure_final_def
    using e quiet_not_failed [OF e(2)] by blast
qed

lemma enum_final_True:
  "enum_failure_final E s True s1 \<Longrightarrow>
   \<exists>e1. calls s1 = calls s @ e1 \<and> (\<forall>j<length e1. \<not> enum_failed E (calls s @ take (Suc j) e1))"
  by (auto simp: enum_failure_final_def)

lemma enum_final_comp:
  assumes "enum_failure_final E s True s1" and "enum_failure_final E s1 r s2"
  shows "enum_failure_final E s r s2"
proof -
  obtain e1 where e1: "calls s1 = calls s @ e1"
      "\<forall>j<length e1. \<not> enum_failed E (calls s @ take (Suc j) e1)"
    using enum_final_True [OF assms(1)] by blast
  obtain e2 where e2: "calls s2 = calls s1 @ e2"
      "\<forall>j<length e2. enum_failed E (calls s1 @ take (Suc j) e2)
               \<longrightarrow> Suc j = length e2 \<and> \<not> r \<and> status s2 = RED_ENUM_FAILURE"
    using assms(2) by (auto simp: enum_failure_final_def)
  show ?thesis by (rule enum_final_append [OF e1(1) e2(1) e1(2) e2(2)])
qed

lemma enum_final_then_quiet:
  assumes "enum_failure_final E s True s1" and "quiet s1 s2" and "calls s' = calls s2"
  shows "enum_failure_final E s r s'"
proof -
  obtain e1 where e1: "calls s1 = calls s @ e1"
      "\<forall>j<length e1. \<not> enum_failed E (calls s @ take (Suc j) e1)"
    using enum_final_True [OF assms(1)] by blast
  obtain e2 where e2: "calls s2 = calls s1 @ e2" "list_all (\<lambda>c. \<not> is_enumerate c) e2"
    using assms(2) by (auto simp: quiet_def)
  have c: "calls s' = calls s1 @ e2" using e2(1) assms(3) by simp
  have "\<forall>j<length e2. enum_failed E (calls s1 @ take (Suc j) e2)
               \<longrightarrow> Suc j = length e2 \<and> \<not> r \<and> status s' = RED_ENUM_FAILURE"
    using quiet_not_failed [OF e2(2)] by blast
  then show ?thesis by (rule enum_final_append [OF e1(1) c e1(2)])
qed

lemma enum_final_setStatus: "enum_failure_final E s (fst (setStatus x s)) (snd (setStatus x s))"
  by (simp add: enum_failure_final_def setStatus_def Let_def)

lemma svp_enumerate_calls:
  "\<exists>g e. calls (svp_enumerate E param kappa blockSize' par s) = calls s @ [g, e]
     \<and> \<not> is_enumerate g
     \<and> snd (enumerate_result E (calls s @ [g, e])) = solCoord (svp_enumerate E param kappa blockSize' par s)"
  by (simp add: svp_enumerate_def m_getRExp_def Enumeration_enumerate_def Let_def case_prod_beta)

lemma enum_final_enum:
  assumes "svp_enum_insert E param kappa blockSize' par clean s = Inr (r, c, s')"
  shows "enum_failure_final E s r s'"
proof -
  let ?se = "svp_enumerate E param kappa blockSize' par s"
  obtain g e where ge: "calls ?se = calls s @ [g, e]" "\<not> is_enumerate g"
      "snd (enumerate_result E (calls s @ [g, e])) = solCoord ?se"
    using svp_enumerate_calls by blast
  have ins: "svp_insert E kappa blockSize' clean ?se = Inr (r, c, s')"
    using assms by (simp add: svp_enum_insert_def)
  have first: "\<not> enum_failed E (calls s @ [g])" using ge(2) by (simp add: enum_failed_def)
  from svp_insert_shape [OF ins] consider
      (empty) "solCoord ?se = []" "\<not> r" "s' = ?se\<lparr>status := RED_ENUM_FAILURE\<rparr>"
    | (found) sq where "solCoord ?se \<noteq> []" "quiet ?se sq"
        "r \<and> s' = sq \<or> r = fst (setStatus (lll_status sq) sq) \<and> s' = snd (setStatus (lll_status sq) sq)"
    by blast
  then show ?thesis
  proof cases
    case empty
    have "\<forall>j<length [g, e]. enum_failed E (calls s @ take (Suc j) [g, e])
            \<longrightarrow> Suc j = length [g, e] \<and> \<not> r \<and> status s' = RED_ENUM_FAILURE"
      using first empty(2,3) by (auto simp: less_Suc_eq)
    moreover have "calls s' = calls s @ [g, e]" using empty(3) ge(1) by simp
    ultimately show ?thesis unfolding enum_failure_final_def by blast
  next
    case found
    have cs: "calls s' = calls sq" using found(3) by (auto simp: setStatus_def Let_def)
    have nf: "\<forall>j<length [g, e]. \<not> enum_failed E (calls s @ take (Suc j) [g, e])"
      using first ge(3) found(1) by (auto simp: less_Suc_eq enum_failed_def)
    have "enum_failure_final E s True ?se"
      unfolding enum_failure_final_def using ge(1) nf by blast
    then show ?thesis using found(2) cs by (rule enum_final_then_quiet)
  qed
qed

lemma enum_final_invariant: "step_invariant enum_failure_final"
  unfolding step_invariant_def
proof (intro conjI allI impI)
  fix E :: "'a env" and s s' :: "'a bkz_state"
  assume "quiet s s'"
  then show "enum_failure_final E s True s'" by (rule enum_final_quiet)
next
  fix E :: "'a env" and s s1 s2 :: "'a bkz_state" and r
  assume "enum_failure_final E s True s1" and "enum_failure_final E s1 r s2"
  then show "enum_failure_final E s r s2" by (rule enum_final_comp)
next
  fix E :: "'a env" and s :: "'a bkz_state" and x
  show "enum_failure_final E s (fst (setStatus x s)) (snd (setStatus x s))"
    by (rule enum_final_setStatus)
next
  fix E :: "'a env" and param par :: "'a BKZParam" and kappa blockSize' clean
    and s s' :: "'a bkz_state" and r c
  assume "svp_enum_insert E param kappa blockSize' par clean s = Inr (r, c, s')"
  then show "enum_failure_final E s r s'" by (rule enum_final_enum)
qed

text \<open>A tour whose blocks before \<open>kappa\<close> succeed returns the failure of the block at \<open>kappa\<close>.\<close>

lemma bkzLoop_from_fails_at:
  assumes "k0 \<le> kappa" and "kappa < maxRow - 1"
    and "bkzLoop_blocks n E param par maxRow [k0..kappa - 1] kappaMax clean s =
           Inr (True, c1, km1, s1)"
    and "svpReduction n E param kappa (min (blockSize par) (maxRow - kappa)) par c1 s1 =
           Inr (False, c2, s2)"
  shows "bkzLoop_from n E param loop kappaMax par minRow maxRow k0 clean s =
           Inr (False, c2, km1, s2)"
  using assms
proof (induction "nat (kappa - k0)" arbitrary: k0 kappaMax clean s)
  case 0
  then have k: "k0 = kappa" by simp
  then have "c1 = clean" "km1 = kappaMax" "s1 = s" using "0.prems"(3) by simp_all
  then show ?case
    using "0.prems"(2,4) k by (subst bkzLoop_from.simps) (simp add: Let_def)
next
  case (Suc m)
  then have lt: "k0 < kappa" and m: "m = nat (kappa - (k0 + 1))" and le: "k0 + 1 \<le> kappa"
    by linarith+
  have up: "[k0..kappa - 1] = k0 # [k0 + 1..kappa - 1]" using lt by (simp add: upto_rec1)
  obtain c' s' where
    blk: "svpReduction n E param k0 (min (blockSize par) (maxRow - k0)) par clean s =
            Inr (True, c', s')"
    and rest: "bkzLoop_blocks n E param par maxRow [k0 + 1..kappa - 1]
                 (if flag_set (flags par) BKZ_VERBOSE \<and> kappaMax < k0 \<and> c' then k0 else kappaMax)
                 c' s' = Inr (True, c1, km1, s1)"
    using Suc.prems(3) unfolding up
    by (auto split: sum.splits prod.splits if_splits)
  have "bkzLoop_from n E param loop kappaMax par minRow maxRow k0 clean s =
        bkzLoop_from n E param loop
          (if flag_set (flags par) BKZ_VERBOSE \<and> kappaMax < k0 \<and> c' then k0 else kappaMax)
          par minRow maxRow (k0 + 1) c' s'"
    using lt Suc.prems(2) blk by (subst bkzLoop_from.simps) (simp add: Let_def)
  also have "\<dots> = Inr (False, c2, km1, s2)"
    using Suc.hyps(1) [OF m le Suc.prems(2) rest Suc.prems(4)] .
  finally show ?case .
qed

lemma svp_enum_insert_empty:
  assumes "solCoord (svp_enumerate E param kappa blockSize' par s) = []"
  shows "svp_enum_insert E param kappa blockSize' par clean s =
        Inr (False, clean, (svp_enumerate E param kappa blockSize' par s)\<lparr>status := RED_ENUM_FAILURE\<rparr>)"
  using assms
  by (simp add: svp_enum_insert_def svp_insert_def setStatus_def Let_def RED_ENUM_FAILURE_def
      RED_SUCCESS_def)

lemma svpReduction_enum_fails:
  assumes "svp_lll E kappa blockSize' par clean s = Continue (c1, s1)"
    and "\<not> preproc_enabled par blockSize'"
    and "solCoord (svp_enumerate E param kappa blockSize' par s1) = []"
  shows "svpReduction n E param kappa blockSize' par clean s =
        Inr (False, c1, (svp_enumerate E param kappa blockSize' par s1)\<lparr>status := RED_ENUM_FAILURE\<rparr>)"
  using assms(1,2) svp_enum_insert_empty [OF assms(3), of c1]
  by (subst svpReduction.simps) simp

lemma svpReduction_preproc_then_enum_fails:
  assumes "svp_lll E kappa blockSize' par clean s = Continue (c1, s1)"
    and "preproc_enabled par blockSize'"
    and "preproc_loop n E param kappa blockSize' par (the (preprocessing par)) 0
           (BKZAutoAbort_new E (kappa + blockSize') kappa) (fst (cputime E s1)) (numRows s1) c1
           (snd (cputime E s1)) = Inr (True, c2, s3)"
    and "solCoord (svp_enumerate E param kappa blockSize' par s3) = []"
  shows "svpReduction n E param kappa blockSize' par clean s =
        Inr (False, c2, (svp_enumerate E param kappa blockSize' par s3)\<lparr>status := RED_ENUM_FAILURE\<rparr>)"
  using assms(1-3) svp_enum_insert_empty [OF assms(4), of c2]
  by (subst svpReduction.simps) (simp add: Let_def case_prod_beta)

lemma svpReduction_preproc_fails:
  assumes "svp_lll E kappa blockSize' par clean s = Continue (c1, s1)"
    and "preproc_enabled par blockSize'"
    and "preproc_loop n E param kappa blockSize' par (the (preprocessing par)) 0
           (BKZAutoAbort_new E (kappa + blockSize') kappa) (fst (cputime E s1)) (numRows s1) c1
           (snd (cputime E s1)) = Inr (False, c2, s3)"
  shows "svpReduction n E param kappa blockSize' par clean s = Inr (False, c2, s3)"
  using assms
  by (subst svpReduction.simps) (simp add: Let_def case_prod_beta)

lemma preproc_loop_tour_fails:
  assumes "\<not> (flag_set (flags par) BKZ_MAX_LOOPS \<and> maxLoops par \<le> i)"
    and "max_time_test E par cputimeStart2 s = (False, s1)"
    and "testAbort E (autoAbort_scale par) (autoAbort_maxNoDec par) autoAbort s1 = (False, aa1, s2)"
    and "bkzLoop_from n E param i dummyKappaMax preproc kappa (kappa + blockSize') kappa True s2 =
           Inr (False, c2, km1, s3)"
  shows "preproc_loop (Suc n) E param kappa blockSize' par preproc i autoAbort cputimeStart2
           dummyKappaMax clean s = Inr (False, clean, s3)"
  using assms by (simp add: Let_def)

lemma bkz_loop_tour_fails:
  assumes "\<not> (flag_set (flags param) BKZ_MAX_LOOPS \<and> maxLoops param \<le> iLoop)"
    and "max_time_test E param (cputimeStart s) s = (False, s1)"
    and "(if flag_set (flags param) BKZ_AUTO_ABORT
          then testAbort E (autoAbort_scale param) (autoAbort_maxNoDec param) autoAbort s1
          else (False, autoAbort, s1)) = (False, aa1, s2)"
    and "bkzLoop n E param iLoop kappaMax param 0 (numRows s2) True s2 = Inr (False, c, km1, s3)"
  shows "bkz_loop (Suc n) E param iLoop kappaMax autoAbort s = Inr (Return False, s3)"
  using assms by (simp add: Let_def)

lemma bkz_enum_failure_final:
  assumes run: "bkz n E param s = Inr (r, s')"
  shows "enum_failure_final E s r s'"
proof -
  let ?s0 = "bkz_dump_input E param s"
  have q0: "quiet s ?s0" by simp
  show "enum_failure_final E s r s'"
  proof (cases "blockSize param < 2")
    case True
    then have "calls s' = calls ?s0" using run by (auto simp: bkz_def setStatus_def Let_def)
    then show ?thesis
      using enum_final_then_quiet [OF enum_final_quiet [OF quiet_refl] q0] by blast
  next
    case False
    let ?sb = "bkz_begin E ?s0"
    have qb: "quiet s ?sb" by simp
    have fb: "enum_failure_final E s True ?sb" using qb by (rule enum_final_quiet)
    let ?loop = "bkz_loop n E param 0 0 (BKZAutoAbort_new E (numRows ?s0) 0) ?sb"
    show ?thesis
    proof (cases ?loop)
      case (Inl e)
      then show ?thesis using run False by (simp add: bkz_def Let_def)
    next
      case (Inr y)
      obtain fl s4 where y: "y = (fl, s4)" by (cases y)
      have inv: "enum_failure_final E ?sb (case fl of Return b \<Rightarrow> b | Continue x \<Rightarrow> True) s4
                 \<and> fl \<noteq> Return True"
        using bkz_loop_invariant [OF enum_final_invariant] Inr y by blast
      show ?thesis
      proof (cases fl)
        case (Return b)
        then have b: "b = False" using inv by simp
        then have "r = False" "s' = s4" using run False Inr y Return by (simp_all add: bkz_def Let_def)
        moreover have "enum_failure_final E ?sb False s4" using inv Return b by simp
        ultimately show ?thesis using enum_final_comp [OF fb] by simp
      next
        case (Continue x)
        then have "enum_failure_final E ?sb True s4" using inv by simp
        then have a: "enum_failure_final E s True s4" using enum_final_comp [OF fb] by blast
        have "calls s' = calls (bkz_dump_output E param s4)"
          using run False Inr y Continue by (auto simp: bkz_def Let_def setStatus_def)
        then show ?thesis
          using enum_final_then_quiet [OF a quiet_bkz_dump_output [OF quiet_refl]] by blast
      qed
    qed
  qed
qed

text \<open>
  C7: when the enumeration leaves \<^verbatim>\<open>solCoord\<close> empty, \<^verbatim>\<open>svpReduction\<close> sets the status to
  RED_ENUM_FAILURE and returns false, after a preprocessing or without one.  The failure is
  handed up, each time in the state the failed block has left, so that nothing is called
  after the enumeration: a tour whose earlier blocks have succeeded returns false at the
  block that fails (line 171); the preprocessing loop returns false when its tour does (101),
  and \<^verbatim>\<open>svpReduction\<close> when its preprocessing loop does; the loop of \<^verbatim>\<open>bkz\<close> returns false
  when its tour does (233), and so does \<^verbatim>\<open>bkz\<close>.  Hence in every run of \<^verbatim>\<open>svpReduction\<close>, of a
  tour and of \<^verbatim>\<open>bkz\<close>, nested in a preprocessing or not, a call of the enumeration that left
  \<^verbatim>\<open>solCoord\<close> empty is the last call made on a collaborator, the run returned false and the
  status is RED_ENUM_FAILURE: no further block is reduced.
\<close>

theorem enum_failure_propagates:
  "(solCoord (svp_enumerate E param kappa blockSize' par s) = [] \<longrightarrow>
      svp_enum_insert E param kappa blockSize' par clean s =
        Inr (False, clean, (svp_enumerate E param kappa blockSize' par s)\<lparr>status := RED_ENUM_FAILURE\<rparr>))
   \<and> (svp_lll E kappa blockSize' par clean s = Continue (c1, s1)
        \<and> \<not> preproc_enabled par blockSize'
        \<and> solCoord (svp_enumerate E param kappa blockSize' par s1) = [] \<longrightarrow>
      svpReduction n E param kappa blockSize' par clean s =
        Inr (False, c1, (svp_enumerate E param kappa blockSize' par s1)\<lparr>status := RED_ENUM_FAILURE\<rparr>))
   \<and> (svp_lll E kappa blockSize' par clean s = Continue (c1, s1)
        \<and> preproc_enabled par blockSize'
        \<and> preproc_loop n E param kappa blockSize' par (the (preprocessing par)) 0
            (BKZAutoAbort_new E (kappa + blockSize') kappa) (fst (cputime E s1)) (numRows s1) c1
            (snd (cputime E s1)) = Inr (True, c2, s3)
        \<and> solCoord (svp_enumerate E param kappa blockSize' par s3) = [] \<longrightarrow>
      svpReduction n E param kappa blockSize' par clean s =
        Inr (False, c2, (svp_enumerate E param kappa blockSize' par s3)\<lparr>status := RED_ENUM_FAILURE\<rparr>))
   \<and> (svp_lll E kappa blockSize' par clean s = Continue (c1, s1)
        \<and> preproc_enabled par blockSize'
        \<and> preproc_loop n E param kappa blockSize' par (the (preprocessing par)) 0
            (BKZAutoAbort_new E (kappa + blockSize') kappa) (fst (cputime E s1)) (numRows s1) c1
            (snd (cputime E s1)) = Inr (False, c2, s3) \<longrightarrow>
      svpReduction n E param kappa blockSize' par clean s = Inr (False, c2, s3))
   \<and> (\<not> (flag_set (flags par) BKZ_MAX_LOOPS \<and> maxLoops par \<le> i)
        \<and> max_time_test E par cputimeStart2 s = (False, s1)
        \<and> testAbort E (autoAbort_scale par) (autoAbort_maxNoDec par) autoAbort s1 = (False, aa1, s2)
        \<and> bkzLoop_from n E param i dummyKappaMax preproc kappa (kappa + blockSize') kappa True s2 =
            Inr (False, c2, km1, s3) \<longrightarrow>
      preproc_loop (Suc n) E param kappa blockSize' par preproc i autoAbort cputimeStart2
        dummyKappaMax clean s = Inr (False, clean, s3))
   \<and> (kappa < maxRow - 1
        \<and> svpReduction n E param kappa (min (blockSize par) (maxRow - kappa)) par clean s =
            Inr (False, c, s') \<longrightarrow>
      bkzLoop_from n E param loop kappaMax par minRow maxRow kappa clean s =
        Inr (False, c, kappaMax, s'))
   \<and> (minRow \<le> kappa \<and> kappa < maxRow - 1
        \<and> bkzLoop_blocks n E param par maxRow [minRow..kappa - 1] kappaMax clean s =
            Inr (True, c1, km1, s1)
        \<and> svpReduction n E param kappa (min (blockSize par) (maxRow - kappa)) par c1 s1 =
            Inr (False, c2, s2) \<longrightarrow>
      bkzLoop n E param loop kappaMax par minRow maxRow clean s = Inr (False, c2, km1, s2))
   \<and> (\<not> (flag_set (flags param) BKZ_MAX_LOOPS \<and> maxLoops param \<le> iLoop)
        \<and> max_time_test E param (cputimeStart s) s = (False, s1)
        \<and> (if flag_set (flags param) BKZ_AUTO_ABORT
            then testAbort E (autoAbort_scale param) (autoAbort_maxNoDec param) autoAbort s1
            else (False, autoAbort, s1)) = (False, aa1, s2)
        \<and> bkzLoop n E param iLoop kappaMax param 0 (numRows s2) True s2 = Inr (False, c, km1, s3) \<longrightarrow>
      bkz_loop (Suc n) E param iLoop kappaMax autoAbort s = Inr (Return False, s3))
   \<and> (2 \<le> blockSize param
        \<and> bkz_loop n E param 0 0 (BKZAutoAbort_new E (numRows (bkz_dump_input E param s)) 0)
            (bkz_begin E (bkz_dump_input E param s)) = Inr (Return False, s') \<longrightarrow>
      bkz n E param s = Inr (False, s'))
   \<and> (svpReduction n E param kappa blockSize' par clean s = Inr (r, c, s')
      \<longrightarrow> enum_failure_final E s r s')
   \<and> (bkzLoop n E param loop kappaMax par minRow maxRow clean s = Inr (r, c, km', s')
      \<longrightarrow> enum_failure_final E s r s')
   \<and> (bkz n E param s = Inr (r, s') \<longrightarrow> enum_failure_final E s r s')"
proof (intro conjI impI)
  assume "solCoord (svp_enumerate E param kappa blockSize' par s) = []"
  then show "svp_enum_insert E param kappa blockSize' par clean s =
        Inr (False, clean, (svp_enumerate E param kappa blockSize' par s)\<lparr>status := RED_ENUM_FAILURE\<rparr>)"
    by (rule svp_enum_insert_empty)
next
  assume "svp_lll E kappa blockSize' par clean s = Continue (c1, s1)
        \<and> \<not> preproc_enabled par blockSize'
        \<and> solCoord (svp_enumerate E param kappa blockSize' par s1) = []"
  then show "svpReduction n E param kappa blockSize' par clean s =
        Inr (False, c1, (svp_enumerate E param kappa blockSize' par s1)\<lparr>status := RED_ENUM_FAILURE\<rparr>)"
    by (elim conjE) (rule svpReduction_enum_fails)
next
  assume "svp_lll E kappa blockSize' par clean s = Continue (c1, s1)
        \<and> preproc_enabled par blockSize'
        \<and> preproc_loop n E param kappa blockSize' par (the (preprocessing par)) 0
            (BKZAutoAbort_new E (kappa + blockSize') kappa) (fst (cputime E s1)) (numRows s1) c1
            (snd (cputime E s1)) = Inr (True, c2, s3)
        \<and> solCoord (svp_enumerate E param kappa blockSize' par s3) = []"
  then show "svpReduction n E param kappa blockSize' par clean s =
        Inr (False, c2, (svp_enumerate E param kappa blockSize' par s3)\<lparr>status := RED_ENUM_FAILURE\<rparr>)"
    by (elim conjE) (rule svpReduction_preproc_then_enum_fails)
next
  assume "svp_lll E kappa blockSize' par clean s = Continue (c1, s1)
        \<and> preproc_enabled par blockSize'
        \<and> preproc_loop n E param kappa blockSize' par (the (preprocessing par)) 0
            (BKZAutoAbort_new E (kappa + blockSize') kappa) (fst (cputime E s1)) (numRows s1) c1
            (snd (cputime E s1)) = Inr (False, c2, s3)"
  then show "svpReduction n E param kappa blockSize' par clean s = Inr (False, c2, s3)"
    by (elim conjE) (rule svpReduction_preproc_fails)
next
  assume "\<not> (flag_set (flags par) BKZ_MAX_LOOPS \<and> maxLoops par \<le> i)
        \<and> max_time_test E par cputimeStart2 s = (False, s1)
        \<and> testAbort E (autoAbort_scale par) (autoAbort_maxNoDec par) autoAbort s1 = (False, aa1, s2)
        \<and> bkzLoop_from n E param i dummyKappaMax preproc kappa (kappa + blockSize') kappa True s2 =
            Inr (False, c2, km1, s3)"
  then show "preproc_loop (Suc n) E param kappa blockSize' par preproc i autoAbort cputimeStart2
        dummyKappaMax clean s = Inr (False, clean, s3)"
    by (elim conjE) (rule preproc_loop_tour_fails)
next
  assume "kappa < maxRow - 1
        \<and> svpReduction n E param kappa (min (blockSize par) (maxRow - kappa)) par clean s =
            Inr (False, c, s')"
  then show "bkzLoop_from n E param loop kappaMax par minRow maxRow kappa clean s =
        Inr (False, c, kappaMax, s')"
    by (subst bkzLoop_from.simps) (simp add: Let_def)
next
  assume "minRow \<le> kappa \<and> kappa < maxRow - 1
        \<and> bkzLoop_blocks n E param par maxRow [minRow..kappa - 1] kappaMax clean s =
            Inr (True, c1, km1, s1)
        \<and> svpReduction n E param kappa (min (blockSize par) (maxRow - kappa)) par c1 s1 =
            Inr (False, c2, s2)"
  then show "bkzLoop n E param loop kappaMax par minRow maxRow clean s = Inr (False, c2, km1, s2)"
    unfolding bkzLoop_def by (elim conjE) (rule bkzLoop_from_fails_at)
next
  assume "\<not> (flag_set (flags param) BKZ_MAX_LOOPS \<and> maxLoops param \<le> iLoop)
        \<and> max_time_test E param (cputimeStart s) s = (False, s1)
        \<and> (if flag_set (flags param) BKZ_AUTO_ABORT
            then testAbort E (autoAbort_scale param) (autoAbort_maxNoDec param) autoAbort s1
            else (False, autoAbort, s1)) = (False, aa1, s2)
        \<and> bkzLoop n E param iLoop kappaMax param 0 (numRows s2) True s2 = Inr (False, c, km1, s3)"
  then show "bkz_loop (Suc n) E param iLoop kappaMax autoAbort s = Inr (Return False, s3)"
    by (elim conjE) (rule bkz_loop_tour_fails)
next
  assume "2 \<le> blockSize param
        \<and> bkz_loop n E param 0 0 (BKZAutoAbort_new E (numRows (bkz_dump_input E param s)) 0)
            (bkz_begin E (bkz_dump_input E param s)) = Inr (Return False, s')"
  then show "bkz n E param s = Inr (False, s')"
    by (simp add: bkz_def Let_def)
next
  assume "svpReduction n E param kappa blockSize' par clean s = Inr (r, c, s')"
  then show "enum_failure_final E s r s'"
    by (rule driver_invariant(1) [OF enum_final_invariant])
next
  assume "bkzLoop n E param loop kappaMax par minRow maxRow clean s = Inr (r, c, km', s')"
  then show "enum_failure_final E s r s'"
    unfolding bkzLoop_def by (rule driver_invariant(3) [OF enum_final_invariant])
next
  assume "bkz n E param s = Inr (r, s')"
  then show "enum_failure_final E s r s'" by (rule bkz_enum_failure_final)
qed

text \<open>
  Two runs.  In the first the block at row 0, of size 4, is preprocessed by a tour of blocks
  of size 3, and the enumeration of the first of them finds nothing: the failure goes up
  through the inner tour, the preprocessing loop, \<^verbatim>\<open>svpReduction\<close>, the tour and \<^verbatim>\<open>bkz\<close>.  In the
  second the first block of the tour succeeds and the enumeration of the second block finds
  nothing.  In both the log ends with the enumeration that failed.
\<close>

theorem enum_failure_propagates_witness:
  "bkz 2 E_enum_fails P_nested s_four =
     Inr (False, s_four\<lparr>status := RED_ENUM_FAILURE, cputimeStart := 1, maxDist := 1,
            deltaMaxDist := 99 / 100,
            calls := [C_cputime, C_discoverAllRows, C_lll 0 0 4, C_cputime,
                      C_updateGSORow 0, C_getRExp 0 0, C_updateGSORow 1, C_getRExp 1 1,
                      C_updateGSORow 2, C_getRExp 2 2, C_updateGSORow 3, C_getRExp 3 3,
                      C_lll 0 0 3, C_getRExp 0 0, C_enumerate 1 0 0 3 []]\<rparr>)
   \<and> enum_failure_final E_enum_fails s_four False
        (s_four\<lparr>status := RED_ENUM_FAILURE, cputimeStart := 1, maxDist := 1,
            deltaMaxDist := 99 / 100,
            calls := [C_cputime, C_discoverAllRows, C_lll 0 0 4, C_cputime,
                      C_updateGSORow 0, C_getRExp 0 0, C_updateGSORow 1, C_getRExp 1 1,
                      C_updateGSORow 2, C_getRExp 2 2, C_updateGSORow 3, C_getRExp 3 3,
                      C_lll 0 0 3, C_getRExp 0 0, C_enumerate 1 0 0 3 []]\<rparr>)
   \<and> enum_failed E_enum_fails
        [C_cputime, C_discoverAllRows, C_lll 0 0 4, C_cputime,
         C_updateGSORow 0, C_getRExp 0 0, C_updateGSORow 1, C_getRExp 1 1,
         C_updateGSORow 2, C_getRExp 2 2, C_updateGSORow 3, C_getRExp 3 3,
         C_lll 0 0 3, C_getRExp 0 0, C_enumerate 1 0 0 3 []]
   \<and> bkz 1 E_second_enum_fails P_plain s_three =
     Inr (False, s_three\<lparr>status := RED_ENUM_FAILURE, cputimeStart := 1, maxDist := 1,
            deltaMaxDist := 99 / 100,
            calls := [C_cputime, C_discoverAllRows, C_lll 0 0 2, C_getRExp 0 0,
                      C_enumerate 1 0 0 2 [], C_lll 0 1 3, C_getRExp 1 1,
                      C_enumerate 1 0 1 3 []]\<rparr>)
   \<and> enum_failure_final E_second_enum_fails s_three False
        (s_three\<lparr>status := RED_ENUM_FAILURE, cputimeStart := 1, maxDist := 1,
            deltaMaxDist := 99 / 100,
            calls := [C_cputime, C_discoverAllRows, C_lll 0 0 2, C_getRExp 0 0,
                      C_enumerate 1 0 0 2 [], C_lll 0 1 3, C_getRExp 1 1,
                      C_enumerate 1 0 1 3 []]\<rparr>)
   \<and> enum_failed E_second_enum_fails
        [C_cputime, C_discoverAllRows, C_lll 0 0 2, C_getRExp 0 0,
         C_enumerate 1 0 0 2 [], C_lll 0 1 3, C_getRExp 1 1, C_enumerate 1 0 1 3 []]"
proof -
  have nested: "bkz (Suc (Suc 0)) E_enum_fails P_nested s_four =
     Inr (False, s_four\<lparr>status := RED_ENUM_FAILURE, cputimeStart := 1, maxDist := 1,
            deltaMaxDist := 99 / 100,
            calls := [C_cputime, C_discoverAllRows, C_lll 0 0 4, C_cputime,
                      C_updateGSORow 0, C_getRExp 0 0, C_updateGSORow 1, C_getRExp 1 1,
                      C_updateGSORow 2, C_getRExp 2 2, C_updateGSORow 3, C_getRExp 3 3,
                      C_lll 0 0 3, C_getRExp 0 0, C_enumerate 1 0 0 3 []]\<rparr>)
   \<and> enum_failure_final E_enum_fails s_four False
        (s_four\<lparr>status := RED_ENUM_FAILURE, cputimeStart := 1, maxDist := 1,
            deltaMaxDist := 99 / 100,
            calls := [C_cputime, C_discoverAllRows, C_lll 0 0 4, C_cputime,
                      C_updateGSORow 0, C_getRExp 0 0, C_updateGSORow 1, C_getRExp 1 1,
                      C_updateGSORow 2, C_getRExp 2 2, C_updateGSORow 3, C_getRExp 3 3,
                      C_lll 0 0 3, C_getRExp 0 0, C_enumerate 1 0 0 3 []]\<rparr>)"
  proof -
    let ?E = E_enum_fails
    let ?h1 = "[C_cputime, C_discoverAllRows, C_lll 0 0 4] :: real call list"
    let ?h2 = "?h1 @ [C_cputime]"
    let ?h3 = "?h2 @ [C_updateGSORow 0, C_getRExp 0 0, C_updateGSORow 1, C_getRExp 1 1,
                        C_updateGSORow 2, C_getRExp 2 2, C_updateGSORow 3, C_getRExp 3 3]"
    let ?h4 = "?h3 @ [C_lll 0 0 3]"
    let ?h5 = "?h4 @ [C_getRExp 0 0, C_enumerate 1 0 0 3 []]"
    let ?sb = "s_four\<lparr>cputimeStart := 1, calls := [C_cputime, C_discoverAllRows]\<rparr>"
    let ?s1 = "s_four\<lparr>cputimeStart := 1, calls := ?h1\<rparr>"
    let ?s2 = "s_four\<lparr>cputimeStart := 1, calls := ?h2\<rparr>"
    let ?s3 = "s_four\<lparr>cputimeStart := 1, calls := ?h3\<rparr>"
    let ?s4 = "s_four\<lparr>cputimeStart := 1, calls := ?h4\<rparr>"
    let ?sf = "s_four\<lparr>status := RED_ENUM_FAILURE, cputimeStart := 1, maxDist := 1,
              deltaMaxDist := 99 / 100, calls := ?h5\<rparr>"
    note defs = E_enum_fails_def E_plain_def P_nested_def P_inner_def s_four_def s_plain_def
    have beg: "bkz_begin ?E (bkz_dump_input ?E P_nested s_four) = ?sb"
      by (simp add: bkz_begin_def bkz_dump_input_def cputime_def m_discoverAllRows_def flag_set_def
          BKZ_DUMP_GSO_def defs)
    have a: "svp_lll ?E 0 3 P_inner True ?s3 = Continue (True, ?s4)
          \<and> \<not> preproc_enabled P_inner 3
          \<and> solCoord (svp_enumerate ?E P_nested 0 3 P_inner ?s4) = []"
      by (simp add: svp_lll_def preproc_enabled_def svp_enumerate_def lllObj_lll_def m_getRExp_def
          Enumeration_enumerate_def flag_set_def BKZ_BOUNDED_LLL_def Let_def defs)
    have sf: "(svp_enumerate ?E P_nested 0 3 P_inner ?s4)\<lparr>status := RED_ENUM_FAILURE\<rparr> = ?sf"
      by (simp add: svp_enumerate_def m_getRExp_def Enumeration_enumerate_def Let_def defs)
    have block: "svpReduction 0 ?E P_nested 0 3 P_inner True ?s3 = Inr (False, True, ?sf)"
      using enum_failure_propagates [THEN conjunct2, THEN conjunct1, rule_format, OF a, of 0]
      unfolding sf .
    have b: "0 < (4::int) - 1
          \<and> svpReduction 0 ?E P_nested 0 (min (blockSize P_inner) (4 - 0)) P_inner True ?s3 =
              Inr (False, True, ?sf)"
      using block by (simp add: P_inner_def)
    have tour_in: "bkzLoop_from 0 ?E P_nested 0 4 P_inner 0 (0 + 4) 0 True ?s3 =
          Inr (False, True, 4, ?sf)"
      using enum_failure_propagates [THEN conjunct2, THEN conjunct2, THEN conjunct2,
          THEN conjunct2, THEN conjunct2, THEN conjunct1, rule_format, OF b, of 0 4 0]
      by simp
    have d: "\<not> (flag_set (flags P_nested) BKZ_MAX_LOOPS \<and> maxLoops P_nested \<le> 0)
          \<and> max_time_test ?E P_nested (fst (cputime ?E ?s1)) (snd (cputime ?E ?s1)) = (False, ?s2)
          \<and> testAbort ?E (autoAbort_scale P_nested) (autoAbort_maxNoDec P_nested)
              (BKZAutoAbort_new ?E (0 + 4) 0) ?s2 =
              (False, \<lparr>oldSlope = 0, noDec = 0, aa_numRows = 4, aa_startRow = 0\<rparr>, ?s3)
          \<and> bkzLoop_from 0 ?E P_nested 0 (numRows ?s1) (the (preprocessing P_nested)) 0 (0 + 4) 0
              True ?s3 = Inr (False, True, 4, ?sf)"
      using tour_in
      by (simp add: max_time_test_def testAbort_def getCurrentSlope_def
          getCurrentSlope_rows.simps m_updateGSORow_def m_getRExp_def BKZAutoAbort_new_def
          std_min_def cputime_def flag_set_def BKZ_MAX_LOOPS_def BKZ_MAX_TIME_def Let_def defs)
    have pre: "preproc_loop (Suc 0) ?E P_nested 0 4 P_nested (the (preprocessing P_nested)) 0
          (BKZAutoAbort_new ?E (0 + 4) 0) (fst (cputime ?E ?s1)) (numRows ?s1) True
          (snd (cputime ?E ?s1)) = Inr (False, True, ?sf)"
      using enum_failure_propagates [THEN conjunct2, THEN conjunct2, THEN conjunct2,
          THEN conjunct2, THEN conjunct1, rule_format, OF d, where clean = True] .
    have c: "svp_lll ?E 0 4 P_nested True ?sb = Continue (True, ?s1)
          \<and> preproc_enabled P_nested 4
          \<and> preproc_loop (Suc 0) ?E P_nested 0 4 P_nested (the (preprocessing P_nested)) 0
              (BKZAutoAbort_new ?E (0 + 4) 0) (fst (cputime ?E ?s1)) (numRows ?s1) True
              (snd (cputime ?E ?s1)) = Inr (False, True, ?sf)"
      using pre
      by (simp add: svp_lll_def preproc_enabled_def lllObj_lll_def flag_set_def
          BKZ_BOUNDED_LLL_def Let_def defs)
    have outer: "svpReduction (Suc 0) ?E P_nested 0 4 P_nested True ?sb = Inr (False, True, ?sf)"
      using enum_failure_propagates [THEN conjunct2, THEN conjunct2, THEN conjunct2,
          THEN conjunct1, rule_format, OF c] .
    have e: "(0::int) \<le> 0 \<and> 0 < (4::int) - 1
          \<and> bkzLoop_blocks (Suc 0) ?E P_nested P_nested 4 [0..0 - 1] 0 True ?sb =
              Inr (True, True, 0, ?sb)
          \<and> svpReduction (Suc 0) ?E P_nested 0 (min (blockSize P_nested) (4 - 0)) P_nested True ?sb =
              Inr (False, True, ?sf)"
      using outer by (simp add: P_nested_def)
    have tour: "bkzLoop (Suc 0) ?E P_nested 0 0 P_nested 0 4 True ?sb = Inr (False, True, 0, ?sf)"
      using enum_failure_propagates [THEN conjunct2, THEN conjunct2, THEN conjunct2,
          THEN conjunct2, THEN conjunct2, THEN conjunct2, THEN conjunct1, rule_format, OF e] .
    have f: "\<not> (flag_set (flags P_nested) BKZ_MAX_LOOPS \<and> maxLoops P_nested \<le> 0)
          \<and> max_time_test ?E P_nested (cputimeStart ?sb) ?sb = (False, ?sb)
          \<and> (if flag_set (flags P_nested) BKZ_AUTO_ABORT
              then testAbort ?E (autoAbort_scale P_nested) (autoAbort_maxNoDec P_nested)
                     (BKZAutoAbort_new ?E (numRows (bkz_dump_input ?E P_nested s_four)) 0) ?sb
              else (False, BKZAutoAbort_new ?E (numRows (bkz_dump_input ?E P_nested s_four)) 0, ?sb))
             = (False, BKZAutoAbort_new ?E (numRows (bkz_dump_input ?E P_nested s_four)) 0, ?sb)
          \<and> bkzLoop (Suc 0) ?E P_nested 0 0 P_nested 0 (numRows ?sb) True ?sb =
              Inr (False, True, 0, ?sf)"
      using tour
      by (simp add: max_time_test_def flag_set_def BKZ_MAX_LOOPS_def BKZ_MAX_TIME_def
          BKZ_AUTO_ABORT_def defs)
    have loop: "bkz_loop (Suc (Suc 0)) ?E P_nested 0 0
          (BKZAutoAbort_new ?E (numRows (bkz_dump_input ?E P_nested s_four)) 0) ?sb =
          Inr (Return False, ?sf)"
      using enum_failure_propagates [THEN conjunct2, THEN conjunct2, THEN conjunct2,
          THEN conjunct2, THEN conjunct2, THEN conjunct2, THEN conjunct2, THEN conjunct1,
          rule_format, OF f] .
    have g: "2 \<le> blockSize P_nested
          \<and> bkz_loop (Suc (Suc 0)) ?E P_nested 0 0
              (BKZAutoAbort_new ?E (numRows (bkz_dump_input ?E P_nested s_four)) 0)
              (bkz_begin ?E (bkz_dump_input ?E P_nested s_four)) = Inr (Return False, ?sf)"
      using loop unfolding beg by (simp add: P_nested_def)
    have run: "bkz (Suc (Suc 0)) ?E P_nested s_four = Inr (False, ?sf)"
      using enum_failure_propagates [THEN conjunct2, THEN conjunct2, THEN conjunct2,
          THEN conjunct2, THEN conjunct2, THEN conjunct2, THEN conjunct2, THEN conjunct2,
          THEN conjunct1, rule_format, OF g] .
    have final: "enum_failure_final ?E s_four False ?sf"
      using enum_failure_propagates [THEN conjunct2, THEN conjunct2, THEN conjunct2,
          THEN conjunct2, THEN conjunct2, THEN conjunct2, THEN conjunct2, THEN conjunct2,
          THEN conjunct2, THEN conjunct2, THEN conjunct2, rule_format, OF run] .
    show ?thesis using run final by simp
  qed
  have second: "bkz (Suc 0) E_second_enum_fails P_plain s_three =
     Inr (False, s_three\<lparr>status := RED_ENUM_FAILURE, cputimeStart := 1, maxDist := 1,
            deltaMaxDist := 99 / 100,
            calls := [C_cputime, C_discoverAllRows, C_lll 0 0 2, C_getRExp 0 0,
                      C_enumerate 1 0 0 2 [], C_lll 0 1 3, C_getRExp 1 1,
                      C_enumerate 1 0 1 3 []]\<rparr>)
   \<and> enum_failure_final E_second_enum_fails s_three False
        (s_three\<lparr>status := RED_ENUM_FAILURE, cputimeStart := 1, maxDist := 1,
            deltaMaxDist := 99 / 100,
            calls := [C_cputime, C_discoverAllRows, C_lll 0 0 2, C_getRExp 0 0,
                      C_enumerate 1 0 0 2 [], C_lll 0 1 3, C_getRExp 1 1,
                      C_enumerate 1 0 1 3 []]\<rparr>)"
  proof -
    let ?E = E_second_enum_fails
    let ?h1 = "[C_cputime, C_discoverAllRows, C_lll 0 0 2, C_getRExp 0 0,
                C_enumerate 1 0 0 2 []] :: real call list"
    let ?h2 = "?h1 @ [C_lll 0 1 3]"
    let ?h3 = "?h2 @ [C_getRExp 1 1, C_enumerate 1 0 1 3 []]"
    let ?sb = "s_three\<lparr>cputimeStart := 1, calls := [C_cputime, C_discoverAllRows]\<rparr>"
    let ?s1 = "s_three\<lparr>cputimeStart := 1, maxDist := 1, deltaMaxDist := 99 / 100,
                 solCoord := [1, 0], calls := ?h1\<rparr>"
    let ?s2 = "s_three\<lparr>cputimeStart := 1, maxDist := 1, deltaMaxDist := 99 / 100,
                 solCoord := [1, 0], calls := ?h2\<rparr>"
    let ?sf = "s_three\<lparr>status := RED_ENUM_FAILURE, cputimeStart := 1, maxDist := 1,
              deltaMaxDist := 99 / 100, calls := ?h3\<rparr>"
    note defs = E_second_enum_fails_def E_plain_def P_plain_def s_three_def s_plain_def
    have beg: "bkz_begin ?E (bkz_dump_input ?E P_plain s_three) = ?sb"
      by (simp add: bkz_begin_def bkz_dump_input_def cputime_def m_discoverAllRows_def flag_set_def
          BKZ_DUMP_GSO_def defs)
    have a: "svp_lll ?E 1 2 P_plain True ?s1 = Continue (True, ?s2)
          \<and> \<not> preproc_enabled P_plain 2
          \<and> solCoord (svp_enumerate ?E P_plain 1 2 P_plain ?s2) = []"
      by (simp add: svp_lll_def preproc_enabled_def svp_enumerate_def lllObj_lll_def m_getRExp_def
          Enumeration_enumerate_def flag_set_def BKZ_BOUNDED_LLL_def Let_def defs)
    have sf: "(svp_enumerate ?E P_plain 1 2 P_plain ?s2)\<lparr>status := RED_ENUM_FAILURE\<rparr> = ?sf"
      by (simp add: svp_enumerate_def m_getRExp_def Enumeration_enumerate_def Let_def defs)
    have block: "svpReduction 0 ?E P_plain 1 2 P_plain True ?s1 = Inr (False, True, ?sf)"
      using enum_failure_propagates [THEN conjunct2, THEN conjunct1, rule_format, OF a, of 0]
      unfolding sf .
    have e: "(0::int) \<le> 1 \<and> 1 < (3::int) - 1
          \<and> bkzLoop_blocks 0 ?E P_plain P_plain 3 [0..1 - 1] 0 True ?sb =
              Inr (True, True, 0, ?s1)
          \<and> svpReduction 0 ?E P_plain 1 (min (blockSize P_plain) (3 - 1)) P_plain True ?s1 =
              Inr (False, True, ?sf)"
      using block by (simp add: run_defs upto_rec1 defs)
    have tour: "bkzLoop 0 ?E P_plain 0 0 P_plain 0 3 True ?sb = Inr (False, True, 0, ?sf)"
      using enum_failure_propagates [THEN conjunct2, THEN conjunct2, THEN conjunct2,
          THEN conjunct2, THEN conjunct2, THEN conjunct2, THEN conjunct1, rule_format, OF e] .
    have f: "\<not> (flag_set (flags P_plain) BKZ_MAX_LOOPS \<and> maxLoops P_plain \<le> 0)
          \<and> max_time_test ?E P_plain (cputimeStart ?sb) ?sb = (False, ?sb)
          \<and> (if flag_set (flags P_plain) BKZ_AUTO_ABORT
              then testAbort ?E (autoAbort_scale P_plain) (autoAbort_maxNoDec P_plain)
                     (BKZAutoAbort_new ?E (numRows (bkz_dump_input ?E P_plain s_three)) 0) ?sb
              else (False, BKZAutoAbort_new ?E (numRows (bkz_dump_input ?E P_plain s_three)) 0, ?sb))
             = (False, BKZAutoAbort_new ?E (numRows (bkz_dump_input ?E P_plain s_three)) 0, ?sb)
          \<and> bkzLoop 0 ?E P_plain 0 0 P_plain 0 (numRows ?sb) True ?sb =
              Inr (False, True, 0, ?sf)"
      using tour
      by (simp add: max_time_test_def flag_set_def BKZ_MAX_LOOPS_def BKZ_MAX_TIME_def
          BKZ_AUTO_ABORT_def defs)
    have loop: "bkz_loop (Suc 0) ?E P_plain 0 0
          (BKZAutoAbort_new ?E (numRows (bkz_dump_input ?E P_plain s_three)) 0) ?sb =
          Inr (Return False, ?sf)"
      using enum_failure_propagates [THEN conjunct2, THEN conjunct2, THEN conjunct2,
          THEN conjunct2, THEN conjunct2, THEN conjunct2, THEN conjunct2, THEN conjunct1,
          rule_format, OF f] .
    have g: "2 \<le> blockSize P_plain
          \<and> bkz_loop (Suc 0) ?E P_plain 0 0
              (BKZAutoAbort_new ?E (numRows (bkz_dump_input ?E P_plain s_three)) 0)
              (bkz_begin ?E (bkz_dump_input ?E P_plain s_three)) = Inr (Return False, ?sf)"
      using loop unfolding beg by (simp add: P_plain_def)
    have run: "bkz (Suc 0) ?E P_plain s_three = Inr (False, ?sf)"
      using enum_failure_propagates [THEN conjunct2, THEN conjunct2, THEN conjunct2,
          THEN conjunct2, THEN conjunct2, THEN conjunct2, THEN conjunct2, THEN conjunct2,
          THEN conjunct1, rule_format, OF g] .
    have final: "enum_failure_final ?E s_three False ?sf"
      using enum_failure_propagates [THEN conjunct2, THEN conjunct2, THEN conjunct2,
          THEN conjunct2, THEN conjunct2, THEN conjunct2, THEN conjunct2, THEN conjunct2,
          THEN conjunct2, THEN conjunct2, THEN conjunct2, rule_format, OF run] .
    show ?thesis using run final by simp
  qed
  have failed1: "enum_failed E_enum_fails
        [C_cputime, C_discoverAllRows, C_lll 0 0 4, C_cputime,
         C_updateGSORow 0, C_getRExp 0 0, C_updateGSORow 1, C_getRExp 1 1,
         C_updateGSORow 2, C_getRExp 2 2, C_updateGSORow 3, C_getRExp 3 3,
         C_lll 0 0 3, C_getRExp 0 0, C_enumerate 1 0 0 3 []]"
    by (simp add: enum_failed_def E_enum_fails_def)
  have failed2: "enum_failed E_second_enum_fails
        [C_cputime, C_discoverAllRows, C_lll 0 0 2, C_getRExp 0 0,
         C_enumerate 1 0 0 2 [], C_lll 0 1 3, C_getRExp 1 1, C_enumerate 1 0 1 3 []]"
    by (simp add: enum_failed_def E_second_enum_fails_def)
  have two: "Suc (Suc 0) = 2" by simp
  show ?thesis using nested second failed1 failed2 unfolding two by simp
qed

end
